theory Spec2Isabelle
  imports Main "HOL-Library.Word" "HOL-Library.List_Lexorder" "HOL-Library.Sublist"
begin

unbundle bit_operations_syntax

section \<open>Python values\<close>

text \<open>
  A Python \<^verbatim>\<open>str\<close> is a sequence of Unicode code points: \<^verbatim>\<open>len\<close> counts code points and
  comparison is lexicographic on them. The keyword tables of the program are Korean, so a
  string is a list of code points (natural numbers), ordered lexicographically
  (\<^verbatim>\<open>List_Lexorder\<close>). \<open>u\<close> embeds an ASCII literal.
\<close>

type_synonym pystr = "nat list"

definition u :: "string \<Rightarrow> pystr" where
  "u s = map of_char s"

text \<open>
  The dynamically typed values that reach the program from YAML and from the feed parser:
  \<^verbatim>\<open>None\<close>, booleans, integers, strings, lists (and tuples) and dictionaries with string
  keys, kept in insertion order.
\<close>

datatype pyval =
    PNone
  | PBool bool
  | PInt int
  | PStr pystr
  | PList "pyval list"
  | PDict "(pystr \<times> pyval) list"

type_synonym pydict = "(pystr \<times> pyval) list"

text \<open>Truth value testing: \<^verbatim>\<open>if v:\<close>, \<^verbatim>\<open>a or b\<close>.\<close>

fun truthy :: "pyval \<Rightarrow> bool" where
  "truthy PNone = False"
| "truthy (PBool b) = b"
| "truthy (PInt i) = (i \<noteq> 0)"
| "truthy (PStr s) = (s \<noteq> [])"
| "truthy (PList xs) = (xs \<noteq> [])"
| "truthy (PDict d) = (d \<noteq> [])"

definition py_or :: "pyval \<Rightarrow> pyval \<Rightarrow> pyval" where
  "py_or a b = (if truthy a then a else b)"

text \<open>\<^verbatim>\<open>d.get(k)\<close>: the value stored under \<open>k\<close>, \<^verbatim>\<open>None\<close> when the key is absent.\<close>

definition dict_get :: "pydict \<Rightarrow> pystr \<Rightarrow> pyval" where
  "dict_get d k = (case map_of d k of None \<Rightarrow> PNone | Some v \<Rightarrow> v)"

text \<open>
  Exceptions are values. \<open>External\<close> carries the message of an error raised inside a
  library the program calls (network, feed parser, YAML parser, file system).
\<close>

datatype py_error =
    AttributeError
  | TypeError
  | ValueError
  | UnicodeEncodeError
  | FileNotFoundError
  | External pystr

text \<open>
  Slicing \<^verbatim>\<open>xs[:n]\<close> with an integer bound: a negative bound counts from the end, so
  \<^verbatim>\<open>xs[:-1]\<close> drops the last element.
\<close>

definition slice_to :: "int \<Rightarrow> 'a list \<Rightarrow> 'a list" where
  "slice_to n xs = (if 0 \<le> n then take (nat n) xs else take (length xs - nat (- n)) xs)"

text \<open>\<^verbatim>\<open>w in text\<close> on strings: \<open>w\<close> occurs as a contiguous substring.\<close>

fun str_in :: "pystr \<Rightarrow> pystr \<Rightarrow> bool" where
  "str_in w [] = (w = [])"
| "str_in w (c # cs) = (prefix w (c # cs) \<or> str_in w cs)"

text \<open>\<^verbatim>\<open>any(w in t for w in words)\<close>\<close>

definition any_in :: "pystr list \<Rightarrow> pystr \<Rightarrow> bool" where
  "any_in words t = list_ex (\<lambda>w. str_in w t) words"

text \<open>
  Whitespace as \<^verbatim>\<open>str.isspace\<close>, \<^verbatim>\<open>str.strip\<close> and the pattern \<^verbatim>\<open>\s\<close> of \<^verbatim>\<open>re\<close> see it
  (the same 29 code points in CPython).
\<close>

definition isspace :: "nat \<Rightarrow> bool" where
  "isspace c = (c \<in> set [9, 10, 11, 12, 13, 28, 29, 30, 31, 32, 133, 160, 5760,
      8192, 8193, 8194, 8195, 8196, 8197, 8198, 8199, 8200, 8201, 8202,
      8232, 8233, 8239, 8287, 12288])"

definition strip :: "pystr \<Rightarrow> pystr" where
  "strip s = rev (dropWhile isspace (rev (dropWhile isspace s)))"

section \<open>The fingerprint: UTF-8 and SHA-1\<close>

text \<open>
  \<^verbatim>\<open>s.encode("utf-8")\<close>: one to four bytes per code point. A surrogate
  (U+D800 to U+DFFF) cannot be encoded and raises \<^verbatim>\<open>UnicodeEncodeError\<close>; a number above
  U+10FFFF is no code point of a Python string and has no encoding either.
\<close>

type_synonym byte = "8 word"

definition utf8_char :: "nat \<Rightarrow> byte list option" where
  "utf8_char c =
     (if c < 128 then Some [of_nat c]
      else if c < 2048 then Some [of_nat (192 + c div 64), of_nat (128 + c mod 64)]
      else if 55296 \<le> c \<and> c < 57344 then None
      else if c < 65536 then
        Some [of_nat (224 + c div 4096), of_nat (128 + c div 64 mod 64), of_nat (128 + c mod 64)]
      else if c < 1114112 then
        Some [of_nat (240 + c div 262144), of_nat (128 + c div 4096 mod 64),
              of_nat (128 + c div 64 mod 64), of_nat (128 + c mod 64)]
      else None)"

fun encode_utf8 :: "pystr \<Rightarrow> py_error + byte list" where
  "encode_utf8 [] = Inr []"
| "encode_utf8 (c # cs) =
     (case utf8_char c of
        None \<Rightarrow> Inl UnicodeEncodeError
      | Some bs \<Rightarrow> (case encode_utf8 cs of Inl e \<Rightarrow> Inl e | Inr rest \<Rightarrow> Inr (bs @ rest)))"

text \<open>
  \<^verbatim>\<open>hashlib.sha1\<close> is SHA-1 as FIPS 180-4 defines it, on 32-bit words: the message is
  padded with \<open>0x80\<close>, zeros and its bit length (64 bits, big endian) to a multiple of 64
  bytes; every 64-byte block updates the five-word state through 80 rounds.
\<close>

type_synonym w32 = "32 word"

definition rotl :: "nat \<Rightarrow> w32 \<Rightarrow> w32" where
  "rotl n w = push_bit n w OR drop_bit (32 - n) w"

definition be32 :: "byte list \<Rightarrow> w32" where
  "be32 bs = foldl (\<lambda>acc b. push_bit 8 acc OR ucast b) 0 bs"

definition be64_bytes :: "nat \<Rightarrow> byte list" where
  "be64_bytes n = map (\<lambda>i. of_nat (n div 2 ^ (8 * i) mod 256)) [7, 6, 5, 4, 3, 2, 1, 0]"

definition sha1_pad :: "byte list \<Rightarrow> byte list" where
  "sha1_pad m =
     (let r = length m mod 64;
          k = (if r < 56 then 55 - r else 119 - r)
      in m @ [128] @ replicate k 0 @ be64_bytes (8 * length m))"

definition sha1_blocks :: "byte list \<Rightarrow> byte list list" where
  "sha1_blocks bs = map (\<lambda>i. take 64 (drop (64 * i) bs)) [0..<length bs div 64]"

definition block_words :: "byte list \<Rightarrow> w32 list" where
  "block_words blk = map (\<lambda>i. be32 (take 4 (drop (4 * i) blk))) [0..<16]"

definition schedule_step :: "w32 list \<Rightarrow> w32 list" where
  "schedule_step ws =
     (let i = length ws
      in ws @ [rotl 1 (ws ! (i - 3) XOR ws ! (i - 8) XOR ws ! (i - 14) XOR ws ! (i - 16))])"

definition schedule :: "w32 list \<Rightarrow> w32 list" where
  "schedule ws = (schedule_step ^^ 64) ws"

type_synonym sha1_state = "w32 \<times> w32 \<times> w32 \<times> w32 \<times> w32"

definition sha1_f :: "nat \<Rightarrow> w32 \<Rightarrow> w32 \<Rightarrow> w32 \<Rightarrow> w32" where
  "sha1_f i b c d =
     (if i < 20 then (b AND c) OR (NOT b AND d)
      else if i < 40 then b XOR c XOR d
      else if i < 60 then (b AND c) OR (b AND d) OR (c AND d)
      else b XOR c XOR d)"

definition sha1_k :: "nat \<Rightarrow> w32" where
  "sha1_k i =
     (if i < 20 then 0x5A827999
      else if i < 40 then 0x6ED9EBA1
      else if i < 60 then 0x8F1BBCDC
      else 0xCA62C1D6)"

definition sha1_round :: "w32 list \<Rightarrow> sha1_state \<Rightarrow> nat \<Rightarrow> sha1_state" where
  "sha1_round ws st i =
     (case st of (a, b, c, d, e) \<Rightarrow>
        (rotl 5 a + sha1_f i b c d + e + sha1_k i + ws ! i, a, rotl 30 b, c, d))"

definition sha1_block :: "sha1_state \<Rightarrow> byte list \<Rightarrow> sha1_state" where
  "sha1_block h blk =
     (case h of (h0, h1, h2, h3, h4) \<Rightarrow>
        (case foldl (sha1_round (schedule (block_words blk))) h [0..<80] of
           (a, b, c, d, e) \<Rightarrow> (h0 + a, h1 + b, h2 + c, h3 + d, h4 + e)))"

definition sha1_init :: sha1_state where
  "sha1_init = (0x67452301, 0xEFCDAB89, 0x98BADCFE, 0x10325476, 0xC3D2E1F0)"

definition sha1_digest :: "byte list \<Rightarrow> sha1_state" where
  "sha1_digest m = foldl sha1_block sha1_init (sha1_blocks (sha1_pad m))"

text \<open>\<^verbatim>\<open>hexdigest()\<close>: the five words, eight lower-case hexadecimal digits each.\<close>

definition hexdigit :: "nat \<Rightarrow> nat" where
  "hexdigit n = (if n < 10 then 48 + n else 87 + n)"

definition hex32 :: "w32 \<Rightarrow> pystr" where
  "hex32 w = map (\<lambda>i. hexdigit (unat (drop_bit (4 * i) w AND 15))) [7, 6, 5, 4, 3, 2, 1, 0]"

definition hexdigest :: "sha1_state \<Rightarrow> pystr" where
  "hexdigest h = (case h of (h0, h1, h2, h3, h4) \<Rightarrow> concat (map hex32 [h0, h1, h2, h3, h4]))"

text \<open>\<^verbatim>\<open>"|".join(parts)\<close>\<close>

fun join_bar :: "pystr list \<Rightarrow> pystr" where
  "join_bar [] = []"
| "join_bar [p] = p"
| "join_bar (p # q # ps) = p @ [124] @ join_bar (q # ps)"

text \<open>
  \<^verbatim>\<open>sha1(*parts)\<close> of the program: the hexadecimal SHA-1 digest of the UTF-8 bytes of the
  parts joined with \<^verbatim>\<open>|\<close>. It raises when the joined string cannot be encoded.
\<close>

definition sha1 :: "pystr list \<Rightarrow> py_error + pystr" where
  "sha1 parts =
     (case encode_utf8 (join_bar parts) of
        Inl e \<Rightarrow> Inl e
      | Inr bs \<Rightarrow> Inr (hexdigest (sha1_digest bs)))"

section \<open>Labelling\<close>

text \<open>
  The keyword tables, as the code points of the Korean (and Latin) words of the source, in
  the source's order. \<open>POLITICS_KW\<close> starts with U+C815 U+CE58, \<open>ECONOMY_KW\<close> with
  U+ACBD U+C81C, \<open>SOCIETY_KW\<close> with U+C0AC U+D68C, \<open>CULTURE_KW\<close> with U+BB38 U+D654;
  \<open>ITSCI_KW\<close> starts with \<^verbatim>\<open>IT\<close> and \<open>SPORTS_KW\<close> ends with \<^verbatim>\<open>KBO\<close>, \<^verbatim>\<open>NBA\<close>.
\<close>

definition POLITICS_KW :: "pystr list" where
  "POLITICS_KW =
     [[51221, 52824], [45824, 53685, 47161], [44397, 54924], [52509, 49440],
      [51109, 44288], [50668, 45817], [50556, 45817], [52397, 50752, 45824],
      [50808, 44368], [50504, 48372], [48513, 54620]]"

definition ECONOMY_KW :: "pystr list" where
  "ECONOMY_KW =
     [[44221, 51228], [51613, 49884], [53076, 49828, 54588], [54872, 50984],
      [44552, 47532], [47932, 44032], [49688, 52636], [47924, 50669],
      [48512, 46041, 49328], [52292, 44428], [50896, 45804, 47084]]"

definition SOCIETY_KW :: "pystr list" where
  "SOCIETY_KW =
     [[49324, 54924], [49324, 44148], [49324, 44256], [52824, 50504],
      [45432, 46041], [44368, 50977], [48373, 51648], [48372, 44148],
      [51032, 47308], [48277, 50896], [44160, 52272]]"

definition CULTURE_KW :: "pystr list" where
  "CULTURE_KW =
     [[47928, 54868], [50689, 54868], [51020, 50501], [44277, 50672],
      [51204, 49884], [47928, 54617], [50696, 49696], [46300, 46972, 47560],
      [48169, 49569], [50672, 50696]]"

definition ITSCI_KW :: "pystr list" where
  "ITSCI_KW =
     [[73, 84], [44284, 54617], [65, 73], [51064, 44277, 51648, 45733],
      [48152, 46020, 52404], [49828, 53440, 53944, 50629],
      [53364, 46972, 50864, 46300], [48372, 50504], [44172, 51076],
      [53685, 49888], [49548, 54532, 53944, 50920, 50612]]"

definition SPORTS_KW :: "pystr list" where
  "SPORTS_KW =
     [[49828, 54252, 52768], [52629, 44396], [50556, 44396], [45453, 44396],
      [48176, 44396], [44264, 54532], [50732, 47548, 54589],
      [45824, 54364, 54016], [75, 47532, 44536], [75, 66, 79], [78, 66, 65]]"

text \<open>
  \<^verbatim>\<open>guess_category(title, summary, src_category)\<close>. The override comes from the YAML
  document unchecked, so it is any value; \<^verbatim>\<open>if src_category:\<close> tests its truth value.
\<close>

definition guess_category :: "pystr \<Rightarrow> pystr \<Rightarrow> pyval \<Rightarrow> pyval" where
  "guess_category title summary src_category =
     (if truthy src_category then src_category
      else
        (let text = title @ [32] @ summary
         in if any_in POLITICS_KW text then PStr (u ''politics'')
            else if any_in ECONOMY_KW text then PStr (u ''economy'')
            else if any_in SOCIETY_KW text then PStr (u ''society'')
            else if any_in CULTURE_KW text then PStr (u ''culture'')
            else if any_in ITSCI_KW text then PStr (u ''it_science'')
            else if any_in SPORTS_KW text then PStr (u ''sports'')
            else PStr (u ''general'')))"

text \<open>
  \<^verbatim>\<open>make_tags(title, summary)\<close>: the tags are collected in a set and returned as
  \<^verbatim>\<open>sorted(tags)\<close>. The three keyword lists are U+C18D U+BCF4, U+B2E8 U+B3C5, U+AE34 U+AE09
  (breaking); U+D574 U+C124, U+BD84 U+C11D, U+C2EC U+CE35 (analysis); U+C0AC U+C124,
  U+CE7C U+B7FC, U+C624 U+D53C U+B2C8 U+C5B8 (opinion).
\<close>

definition make_tags :: "pystr \<Rightarrow> pystr \<Rightarrow> pystr list" where
  "make_tags title summary =
     (let t = title @ [32] @ summary;
          tags0 = {};
          tags1 = (if any_in [[49549, 48372], [45800, 46021], [44596, 44553]] t
                   then insert (u ''breaking'') tags0 else tags0);
          tags2 = (if any_in [[54644, 49444], [48516, 49437], [49900, 52789]] t
                   then insert (u ''analysis'') tags1 else tags1);
          tags3 = (if any_in [[49324, 49444], [52860, 47100], [50724, 54588, 45768, 50616]] t
                   then insert (u ''opinion'') tags2 else tags2);
          tags4 = (if length title \<le> 25 then insert (u ''short_title'') tags3 else tags3)
      in sorted_list_of_set tags4)"

section \<open>Text normalizer\<close>

text \<open>
  \<^verbatim>\<open>re.sub(r"<.*?>", "", s)\<close>: scanning from the left, a \<^verbatim>\<open><\<close> that is followed by a
  \<^verbatim>\<open>>\<close> with no newline in between is deleted together with everything up to the first
  such \<^verbatim>\<open>>\<close> (the dot does not match a newline, the match is the shortest one).
  \<open>closes cs\<close> looks ahead for that \<^verbatim>\<open>>\<close>; the flag of \<open>strip_tags\<close> says that the scan is
  inside a match.
\<close>

fun closes :: "pystr \<Rightarrow> bool" where
  "closes [] = False"
| "closes (c # cs) = (if c = 62 then True else if c = 10 then False else closes cs)"

fun strip_tags :: "bool \<Rightarrow> pystr \<Rightarrow> pystr" where
  "strip_tags inside [] = []"
| "strip_tags True (c # cs) = (if c = 62 then strip_tags False cs else strip_tags True cs)"
| "strip_tags False (c # cs) =
     (if c = 60 \<and> closes cs then strip_tags True cs else c # strip_tags False cs)"

text \<open>
  \<^verbatim>\<open>re.sub(r"\s+", " ", text)\<close>: every maximal run of whitespace becomes one space
  (written when the run ends).
\<close>

fun collapse_ws :: "pystr \<Rightarrow> pystr" where
  "collapse_ws [] = []"
| "collapse_ws [c] = (if isspace c then [32] else [c])"
| "collapse_ws (c # d # cs) =
     (if isspace c then (if isspace d then collapse_ws (d # cs) else 32 # collapse_ws (d # cs))
      else c # collapse_ws (d # cs))"

text \<open>
  \<^verbatim>\<open>clean_text\<close> is called with whatever the entry holds; \<^verbatim>\<open>re.sub\<close> raises
  \<^verbatim>\<open>TypeError\<close> on a value that is not a string.
\<close>

definition clean_text :: "pyval \<Rightarrow> py_error + pystr" where
  "clean_text html_or_text =
     (if \<not> truthy html_or_text then Inr []
      else (case html_or_text of
              PStr s \<Rightarrow> Inr (strip (collapse_ws (strip_tags False s)))
            | _ \<Rightarrow> Inl TypeError))"

text \<open>\<^verbatim>\<open>v.strip()\<close> on a value: only a string has the method.\<close>

definition strip_val :: "pyval \<Rightarrow> py_error + pystr" where
  "strip_val v = (case v of PStr s \<Rightarrow> Inr (strip s) | _ \<Rightarrow> Inl AttributeError)"

section \<open>The outside world\<close>

text \<open>
  What the program calls but does not define is a parameter: the date libraries, the feed
  parser, the YAML parser, the file system, \<^verbatim>\<open>int\<close> on a string, the article extractor
  and the dataset files. \<open>'dt\<close> is the type of time-zone aware \<^verbatim>\<open>datetime\<close> values in the
  fixed zone \<^verbatim>\<open>KST\<close> (UTC+9). A call that raises returns \<open>None\<close> or \<open>Inl\<close>. Calls whose
  answer depends on when they are made take the number of such calls made before them:
  the state of a run is that counter.
\<close>

record 'dt env =
  dtparser_parse :: "pystr \<Rightarrow> 'dt option"
    \<comment> \<open>\<^verbatim>\<open>dtparser.parse(val).astimezone(KST)\<close>\<close>
  datetime_utc :: "pyval list \<Rightarrow> 'dt option"
    \<comment> \<open>\<^verbatim>\<open>datetime(*args, tzinfo=timezone.utc).astimezone(KST)\<close>\<close>
  isoformat :: "'dt \<Rightarrow> pystr"
  clock :: "nat \<Rightarrow> 'dt"
    \<comment> \<open>\<^verbatim>\<open>datetime.now(KST)\<close>\<close>
  feedparser_parse :: "nat \<Rightarrow> pyval \<Rightarrow> py_error + pydict list"
    \<comment> \<open>\<^verbatim>\<open>feedparser.parse(url).entries\<close>\<close>
  open_read :: "pystr \<Rightarrow> py_error + pystr"
    \<comment> \<open>\<^verbatim>\<open>open(path, "r", encoding="utf-8")\<close>: the text of the file\<close>
  safe_load :: "pystr \<Rightarrow> py_error + pyval"
    \<comment> \<open>\<^verbatim>\<open>yaml.safe_load\<close>\<close>
  py_int :: "pystr \<Rightarrow> int option"
    \<comment> \<open>\<^verbatim>\<open>int(s)\<close>\<close>
  ENABLE_FULLTEXT :: bool
  trafilatura_fetch_url :: "nat \<Rightarrow> pystr \<Rightarrow> py_error + pystr option"
  trafilatura_extract :: "nat \<Rightarrow> pystr \<Rightarrow> py_error + pystr option"
  write_files :: "nat \<Rightarrow> pystr list \<Rightarrow> py_error option"
    \<comment> \<open>\<^verbatim>\<open>ensure_dirs\<close>, \<^verbatim>\<open>save_jsonl\<close>, \<^verbatim>\<open>save_parquet\<close> on the rows with these ids\<close>

definition now_kst :: "'dt env \<Rightarrow> nat \<Rightarrow> 'dt \<times> nat" where
  "now_kst env n = (clock env n, Suc n)"

section \<open>Time resolver\<close>

text \<open>
  One pass of a \<^verbatim>\<open>for key in (...)\<close> loop of \<^verbatim>\<open>parse_time\<close>: the first key whose value is
  truthy and converts without an exception ends the function; an exception is swallowed
  (\<^verbatim>\<open>except Exception: pass\<close>) and the loop goes on.
\<close>

fun first_parsed :: "(pyval \<Rightarrow> 'dt option) \<Rightarrow> pydict \<Rightarrow> pystr list \<Rightarrow> 'dt option" where
  "first_parsed conv entry [] = None"
| "first_parsed conv entry (key # keys) =
     (let val = dict_get entry key
      in if truthy val
         then (case conv val of Some t \<Rightarrow> Some t | None \<Rightarrow> first_parsed conv entry keys)
         else first_parsed conv entry keys)"

text \<open>
  The two conversions. \<^verbatim>\<open>dtparser.parse\<close> raises \<^verbatim>\<open>TypeError\<close> on a value that is not a
  string; \<^verbatim>\<open>val[:6]\<close> unpacked into \<^verbatim>\<open>datetime\<close> raises on every value that is not a
  sequence of integers (a string yields one-character strings).
\<close>

definition parse_string :: "'dt env \<Rightarrow> pyval \<Rightarrow> 'dt option" where
  "parse_string env val = (case val of PStr s \<Rightarrow> dtparser_parse env s | _ \<Rightarrow> None)"

definition parse_tuple :: "'dt env \<Rightarrow> pyval \<Rightarrow> 'dt option" where
  "parse_tuple env val = (case val of PList xs \<Rightarrow> datetime_utc env (take 6 xs) | _ \<Rightarrow> None)"

definition parse_time :: "'dt env \<Rightarrow> pydict \<Rightarrow> nat \<Rightarrow> 'dt \<times> nat" where
  "parse_time env entry n =
     (case first_parsed (parse_string env) entry [u ''published'', u ''updated'', u ''pubDate''] of
        Some t \<Rightarrow> (t, n)
      | None \<Rightarrow>
          (case first_parsed (parse_tuple env) entry [u ''published_parsed'', u ''updated_parsed''] of
             Some t \<Rightarrow> (t, n)
           | None \<Rightarrow> now_kst env n))"

section \<open>Sources and items\<close>

text \<open>
  A source is the dictionary \<^verbatim>\<open>load_sources\<close> builds: always the three keys, each value
  whatever the YAML document held (\<^verbatim>\<open>None\<close> when the key was absent).
\<close>

record source =
  name :: pyval
  url :: pyval
  category :: pyval

text \<open>
  An item, with the keys of the dictionary \<^verbatim>\<open>fetch_rss\<close> builds (\<open>item_id\<close> is its
  \<^verbatim>\<open>"id"\<close>, \<open>item_url\<close> its \<^verbatim>\<open>"url"\<close>, \<open>item_category\<close> its \<^verbatim>\<open>"category"\<close>). \<open>content\<close>
  is \<open>None\<close> while the key is absent.
\<close>

record item =
  item_id :: pystr
  source_name :: pyval
  source_url :: pyval
  item_url :: pystr
  title :: pystr
  summary :: pystr
  published_at :: pystr
  fetched_at :: pystr
  language :: pystr
  item_category :: pyval
  tags :: "pystr list"
  content :: "pystr option"

section \<open>Source loader\<close>

text \<open>
  \<^verbatim>\<open>for s in v\<close>: a list yields its elements, a string its characters, a dictionary its
  keys; \<^verbatim>\<open>None\<close>, a boolean and an integer are not iterable.
\<close>

fun py_iter :: "pyval \<Rightarrow> py_error + pyval list" where
  "py_iter (PList xs) = Inr xs"
| "py_iter (PStr s) = Inr (map (\<lambda>c. PStr [c]) s)"
| "py_iter (PDict d) = Inr (map (\<lambda>kv. PStr (fst kv)) d)"
| "py_iter v = Inl TypeError"

text \<open>The body of the loop of \<^verbatim>\<open>load_sources\<close>: \<^verbatim>\<open>s.get\<close> exists on a dictionary only.\<close>

fun source_of :: "pyval \<Rightarrow> py_error + source" where
  "source_of (PDict s) =
     Inr \<lparr>name = dict_get s (u ''name''), url = dict_get s (u ''url''),
          category = dict_get s (u ''category'')\<rparr>"
| "source_of v = Inl AttributeError"

fun sources_loop :: "pyval list \<Rightarrow> py_error + source list" where
  "sources_loop [] = Inr []"
| "sources_loop (s # rest) =
     (case source_of s of
        Inl e \<Rightarrow> Inl e
      | Inr src \<Rightarrow> (case sources_loop rest of Inl e \<Rightarrow> Inl e | Inr out \<Rightarrow> Inr (src # out)))"

text \<open>
  \<^verbatim>\<open>load_sources(path)\<close>. \<^verbatim>\<open>open\<close> raises when the file is missing; an empty document
  loads as \<^verbatim>\<open>None\<close> and is replaced by \<^verbatim>\<open>{}\<close>; \<^verbatim>\<open>data.get("sources", [])\<close> needs a
  dictionary.
\<close>

definition load_sources :: "'dt env \<Rightarrow> pystr \<Rightarrow> py_error + source list" where
  "load_sources env path =
     (case open_read env path of
        Inl e \<Rightarrow> Inl e
      | Inr f \<Rightarrow>
          (case safe_load env f of
             Inl e \<Rightarrow> Inl e
           | Inr doc \<Rightarrow>
               (case py_or doc (PDict []) of
                  PDict data \<Rightarrow>
                    (case py_iter (case map_of data (u ''sources'') of
                                     None \<Rightarrow> PList [] | Some v \<Rightarrow> v) of
                       Inl e \<Rightarrow> Inl e
                     | Inr ss \<Rightarrow> sources_loop ss)
                | _ \<Rightarrow> Inl AttributeError)))"

section \<open>Fetcher\<close>

text \<open>
  The body of the loop of \<^verbatim>\<open>fetch_rss\<close>, in the order Python evaluates it: title, link,
  summary, \<^verbatim>\<open>parse_time\<close>, then the dictionary display (\<^verbatim>\<open>sha1\<close> first, \<^verbatim>\<open>now_kst\<close> for
  \<^verbatim>\<open>fetched_at\<close> later), category and tags. An exception leaves with the error and the
  count of clock readings made so far.
\<close>

definition make_item :: "'dt env \<Rightarrow> source \<Rightarrow> pydict \<Rightarrow> nat \<Rightarrow> (py_error + item) \<times> nat" where
  "make_item env src e n =
     (case strip_val (py_or (dict_get e (u ''title'')) (PStr [])) of
        Inl err \<Rightarrow> (Inl err, n)
      | Inr title_s \<Rightarrow>
     (case strip_val (py_or (dict_get e (u ''link'')) (PStr [])) of
        Inl err \<Rightarrow> (Inl err, n)
      | Inr link \<Rightarrow>
     (case clean_text (py_or (py_or (dict_get e (u ''summary'')) (dict_get e (u ''description'')))
                         (PStr [])) of
        Inl err \<Rightarrow> (Inl err, n)
      | Inr summary_s \<Rightarrow>
     (case parse_time env e n of (published, n1) \<Rightarrow>
     (case sha1 [title_s, link] of
        Inl err \<Rightarrow> (Inl err, n1)
      | Inr h \<Rightarrow>
     (case now_kst env n1 of (fetched, n2) \<Rightarrow>
        (Inr \<lparr>item_id = take 16 h,
              source_name = name src,
              source_url = url src,
              item_url = link,
              title = title_s,
              summary = summary_s,
              published_at = isoformat env published,
              fetched_at = isoformat env fetched,
              language = u ''ko'',
              item_category = guess_category title_s summary_s (category src),
              tags = make_tags title_s summary_s,
              content = None\<rparr>, n2)))))))"

fun items_loop :: "'dt env \<Rightarrow> source \<Rightarrow> pydict list \<Rightarrow> nat \<Rightarrow> (py_error + item list) \<times> nat" where
  "items_loop env src [] n = (Inr [], n)"
| "items_loop env src (e # es) n =
     (case make_item env src e n of
        (Inl err, n1) \<Rightarrow> (Inl err, n1)
      | (Inr it, n1) \<Rightarrow>
          (case items_loop env src es n1 of
             (Inl err, n2) \<Rightarrow> (Inl err, n2)
           | (Inr items, n2) \<Rightarrow> (Inr (it # items), n2)))"

definition fetch_rss :: "'dt env \<Rightarrow> source \<Rightarrow> nat \<Rightarrow> (py_error + item list) \<times> nat" where
  "fetch_rss env src n =
     (case feedparser_parse env n (url src) of
        Inl err \<Rightarrow> (Inl err, Suc n)
      | Inr entries \<Rightarrow> items_loop env src entries (Suc n))"

section \<open>Fulltext enricher\<close>

text \<open>
  \<^verbatim>\<open>fetch_fulltext(url)\<close> never raises: every exception and every empty result is
  \<^verbatim>\<open>None\<close>. \<^verbatim>\<open>enrich_fulltext\<close> visits the items whose index is below the limit.
\<close>

definition fetch_fulltext :: "'dt env \<Rightarrow> pystr \<Rightarrow> nat \<Rightarrow> pystr option \<times> nat" where
  "fetch_fulltext env link n =
     (if \<not> ENABLE_FULLTEXT env then (None, n)
      else (case trafilatura_fetch_url env n link of
              Inl err \<Rightarrow> (None, Suc n)
            | Inr None \<Rightarrow> (None, Suc n)
            | Inr (Some downloaded) \<Rightarrow>
                (if downloaded = [] then (None, Suc n)
                 else (case trafilatura_extract env (Suc n) downloaded of
                         Inl err \<Rightarrow> (None, Suc (Suc n))
                       | Inr body \<Rightarrow>
                           (let s = strip (case body of None \<Rightarrow> [] | Some b \<Rightarrow> b)
                            in (if s = [] then None else Some s, Suc (Suc n)))))))"

fun enrich_loop :: "'dt env \<Rightarrow> int \<Rightarrow> nat \<Rightarrow> item list \<Rightarrow> nat \<Rightarrow> item list \<times> nat" where
  "enrich_loop env limit i [] n = ([], n)"
| "enrich_loop env limit i (it # items) n =
     (if limit \<le> int i then (it # items, n)
      else if item_url it = [] then
        (case enrich_loop env limit (Suc i) items n of (rest, n2) \<Rightarrow> (it # rest, n2))
      else
        (case fetch_fulltext env (item_url it) n of
           (body, n1) \<Rightarrow>
             (case enrich_loop env limit (Suc i) items n1 of
                (rest, n2) \<Rightarrow>
                  ((case body of None \<Rightarrow> it | Some b \<Rightarrow> it\<lparr>content := Some b\<rparr>) # rest, n2))))"

section \<open>Aggregation pipeline\<close>

text \<open>
  \<^verbatim>\<open>sorted(xs, key=f, reverse=True)\<close> and \<^verbatim>\<open>xs.sort(key=f, reverse=True)\<close>: CPython
  reverses the list, sorts it stably in ascending order and reverses the result, so equal
  keys keep their original order. \<open>sort_key\<close> is a stable sort.
\<close>

definition sorted_reverse :: "('a \<Rightarrow> 'k::linorder) \<Rightarrow> 'a list \<Rightarrow> 'a list" where
  "sorted_reverse f xs = rev (sort_key f (rev xs))"

text \<open>
  A dictionary in insertion order; \<^verbatim>\<open>uniq.setdefault(k, v)\<close> stores \<open>v\<close> only when \<open>k\<close>
  is not a key yet, at the end.
\<close>

definition setdefault :: "('k \<times> 'v) list \<Rightarrow> 'k \<Rightarrow> 'v \<Rightarrow> ('k \<times> 'v) list" where
  "setdefault d k v = (if map_of d k = None then d @ [(k, v)] else d)"

text \<open>Messages on standard error: the two \<^verbatim>\<open>print(..., file=sys.stderr)\<close> of \<^verbatim>\<open>main\<close>.\<close>

datatype log =
    NoSources
  | Warn pyval py_error

text \<open>
  The loop over the sources of \<^verbatim>\<open>main\<close> (lines 196 to 204), on the state
  \<open>(all_items, stderr, n)\<close>.
\<close>

fun collect ::
  "'dt env \<Rightarrow> int \<Rightarrow> source list \<Rightarrow> item list \<times> log list \<times> nat \<Rightarrow> item list \<times> log list \<times> nat"
where
  "collect env per_source_limit [] st = st"
| "collect env per_source_limit (src # rest) (all_items, stderr, n) =
     (case fetch_rss env src n of
        (Inr items, n1) \<Rightarrow>
          collect env per_source_limit rest
            (all_items @ slice_to per_source_limit (sorted_reverse published_at items), stderr, n1)
      | (Inl e, n1) \<Rightarrow>
          collect env per_source_limit rest (all_items, stderr @ [Warn (name src) e], n1))"

text \<open>
  Lines 207 to 210 of \<^verbatim>\<open>main\<close>: the global sort, the dictionary \<^verbatim>\<open>uniq\<close> and the cut at
  \<open>total_limit\<close>.
\<close>

definition aggregate :: "int \<Rightarrow> item list \<Rightarrow> item list" where
  "aggregate total_limit all_items =
     (let uniq = foldl (\<lambda>uniq it. setdefault uniq (item_id it) it) []
                   (sorted_reverse published_at all_items)
      in slice_to total_limit (map snd uniq))"

section \<open>Dataset writer and orchestrator\<close>

text \<open>
  \<^verbatim>\<open>to_frame\<close>: \<^verbatim>\<open>df.drop_duplicates(subset=["id"])\<close> keeps the first row of every id.
\<close>

fun drop_duplicates :: "pystr list \<Rightarrow> item list \<Rightarrow> item list" where
  "drop_duplicates seen [] = []"
| "drop_duplicates seen (it # items) =
     (if item_id it \<in> set seen then drop_duplicates seen items
      else it # drop_duplicates (item_id it # seen) items)"

definition to_frame :: "item list \<Rightarrow> item list" where
  "to_frame items = drop_duplicates [] items"

text \<open>
  \<^verbatim>\<open>int(os.environ.get(key, default))\<close>; the defaults are the literals \<^verbatim>\<open>"20"\<close>, \<^verbatim>\<open>"200"\<close>
  and \<^verbatim>\<open>"40"\<close>, given here as the integers they denote.
\<close>

definition getenv_int :: "'dt env \<Rightarrow> (pystr \<rightharpoonup> pystr) \<Rightarrow> pystr \<Rightarrow> int \<Rightarrow> py_error + int" where
  "getenv_int env environ key dflt =
     (case environ key of
        None \<Rightarrow> Inr dflt
      | Some s \<Rightarrow> (case py_int env s of None \<Rightarrow> Inl ValueError | Some i \<Rightarrow> Inr i))"

definition enrich_fulltext ::
  "'dt env \<Rightarrow> (pystr \<rightharpoonup> pystr) \<Rightarrow> item list \<Rightarrow> nat \<Rightarrow> py_error + item list \<times> nat" where
  "enrich_fulltext env environ items n =
     (case getenv_int env environ (u ''FULLTEXT_LIMIT'') 40 of
        Inl e \<Rightarrow> Inl e
      | Inr limit \<Rightarrow> Inr (enrich_loop env limit 0 items n))"

text \<open>
  How a run ends: \<^verbatim>\<open>sys.exit(code)\<close>, an exception nobody catches, or the dataset saved
  with the rows given.
\<close>

datatype outcome =
    SysExit int
  | Uncaught py_error
  | Saved "item list"

definition save :: "'dt env \<Rightarrow> item list \<Rightarrow> nat \<Rightarrow> outcome" where
  "save env items n =
     (let df = to_frame items
      in (case write_files env n (map item_id df) of
            Some e \<Rightarrow> Uncaught e
          | None \<Rightarrow> Saved df))"

definition main :: "'dt env \<Rightarrow> (pystr \<rightharpoonup> pystr) \<Rightarrow> outcome \<times> log list" where
  "main env environ =
     (let sources_file = (case environ (u ''SOURCES_FILE'') of
                            None \<Rightarrow> u ''sources.yaml'' | Some p \<Rightarrow> p)
      in
      (case getenv_int env environ (u ''PER_SOURCE_LIMIT'') 20 of
         Inl e \<Rightarrow> (Uncaught e, [])
       | Inr per_source_limit \<Rightarrow>
      (case getenv_int env environ (u ''TOTAL_LIMIT'') 200 of
         Inl e \<Rightarrow> (Uncaught e, [])
       | Inr total_limit \<Rightarrow>
      (case load_sources env sources_file of
         Inl e \<Rightarrow> (Uncaught e, [])
       | Inr sources \<Rightarrow>
           (if sources = [] then (SysExit 1, [NoSources])
            else
              (case collect env per_source_limit sources ([], [], 0) of
                 (all_items, stderr, n) \<Rightarrow>
                   (let items = aggregate total_limit all_items
                    in if ENABLE_FULLTEXT env
                       then (case enrich_fulltext env environ items n of
                               Inl e \<Rightarrow> (Uncaught e, stderr)
                             | Inr (items2, n2) \<Rightarrow> (save env items2 n2, stderr))
                       else (save env items n, stderr))))))))"

section \<open>Runs of the source loop\<close>

text \<open>
  What the loop over the sources meets, source by source: \<open>fetch_trace\<close> lists the result
  of every call of \<^verbatim>\<open>fetch_rss\<close>, made in the order of the sources with the clock
  readings threaded through; \<open>fetch_end\<close> is the count of readings after the last call.
  \<open>fetched r\<close> is the number of items a call returned (none when it raised), \<open>kept\<close>
  what line 202 adds to \<^verbatim>\<open>all_items\<close> for it, and \<open>warnings\<close> the lines line 204 prints.
\<close>

fun fetch_trace :: "'dt env \<Rightarrow> source list \<Rightarrow> nat \<Rightarrow> (py_error + item list) list" where
  "fetch_trace env [] n = []"
| "fetch_trace env (src # rest) n =
     fst (fetch_rss env src n) # fetch_trace env rest (snd (fetch_rss env src n))"

fun fetch_end :: "'dt env \<Rightarrow> source list \<Rightarrow> nat \<Rightarrow> nat" where
  "fetch_end env [] n = n"
| "fetch_end env (src # rest) n = fetch_end env rest (snd (fetch_rss env src n))"

definition fetched :: "py_error + item list \<Rightarrow> nat" where
  "fetched r = (case r of Inl e \<Rightarrow> 0 | Inr items \<Rightarrow> length items)"

definition kept :: "int \<Rightarrow> py_error + item list \<Rightarrow> item list" where
  "kept per_source_limit r =
     (case r of
        Inl e \<Rightarrow> []
      | Inr items \<Rightarrow> slice_to per_source_limit (sorted_reverse published_at items))"

fun warnings :: "source list \<Rightarrow> (py_error + item list) list \<Rightarrow> log list" where
  "warnings (src # rest) (r # rs) =
     (case r of Inl e \<Rightarrow> [Warn (name src) e] | Inr items \<Rightarrow> []) @ warnings rest rs"
| "warnings srcs rs = []"

section \<open>The specification's words\<close>

text \<open>
  The categorizer of the specification: six keyword groups in a fixed order; the label is
  that of the first group one of whose keywords is a substring of the text, and
  \<open>general\<close> when there is none.
\<close>

definition keyword_groups :: "(string \<times> pystr list) list" where
  "keyword_groups =
     [(''politics'', POLITICS_KW), (''economy'', ECONOMY_KW), (''society'', SOCIETY_KW),
      (''culture'', CULTURE_KW), (''it_science'', ITSCI_KW), (''sports'', SPORTS_KW)]"

definition first_group_label :: "pystr \<Rightarrow> string" where
  "first_group_label text =
     (case find (\<lambda>g. \<exists>w\<in>set (snd g). \<exists>p q. text = p @ w @ q) keyword_groups of
        Some g \<Rightarrow> fst g
      | None \<Rightarrow> ''general'')"

text \<open>
  The categorizer read literally: an override counts as present as soon as the source
  gives a value for it (everything but \<^verbatim>\<open>None\<close>, which stands for the absent key), and the
  keywords are looked for in the title followed directly by the summary.
\<close>

definition categorizer_as_worded :: "pystr \<Rightarrow> pystr \<Rightarrow> pyval \<Rightarrow> pyval" where
  "categorizer_as_worded t s c =
     (if c \<noteq> PNone then c else PStr (u (first_group_label (t @ s))))"

text \<open>
  The time resolver of the specification: five strategies in a fixed order. A strategy
  reads one field of the entry and fails when the field is absent or empty or when its
  conversion raises.
\<close>

definition attempt :: "(pyval \<Rightarrow> 'dt option) \<Rightarrow> pydict \<Rightarrow> pystr \<Rightarrow> 'dt option" where
  "attempt conv entry key =
     (if truthy (dict_get entry key) then conv (dict_get entry key) else None)"

definition strategies :: "'dt env \<Rightarrow> pydict \<Rightarrow> 'dt option list" where
  "strategies env entry =
     map (attempt (parse_string env) entry) [u ''published'', u ''updated'', u ''pubDate''] @
     map (attempt (parse_tuple env) entry) [u ''published_parsed'', u ''updated_parsed'']"

section \<open>A small world for concrete runs\<close>

text \<open>
  Times are numbers here and print as one character. Only the date \<^verbatim>\<open>2024-05-01\<close>
  parses and only the tuple \<^verbatim>\<open>(2024, 5, 2)\<close> converts; no file exists.
\<close>

definition E0 :: "nat env" where
  "E0 = \<lparr>dtparser_parse = (\<lambda>s. if s = u ''2024-05-01'' then Some 7 else None),
         datetime_utc = (\<lambda>xs. if xs = [PInt 2024, PInt 5, PInt 2] then Some 8 else None),
         isoformat = (\<lambda>t. [48 + t]),
         clock = (\<lambda>n. 100 + n),
         feedparser_parse = (\<lambda>n v. Inl (External [])),
         open_read = (\<lambda>p. Inl FileNotFoundError),
         safe_load = (\<lambda>s. Inr PNone),
         py_int = (\<lambda>s. None),
         ENABLE_FULLTEXT = False,
         trafilatura_fetch_url = (\<lambda>n s. Inr None),
         trafilatura_extract = (\<lambda>n s. Inr None),
         write_files = (\<lambda>n ids. None)\<rparr>"

text \<open>
  Two feeds carry the same article: \<open>entry_a\<close> with padding around the title, markup in
  the summary and a date that parses, \<open>entry_b\<close> with the same title and link, another
  summary and a date tuple one day later. The title of \<open>entry_bad\<close> is a lone surrogate
  (U+D83D), which UTF-8 cannot encode. \<open>entry_ab_c\<close> and \<open>entry_a_bc\<close> have different
  titles and links that join to the same string \<^verbatim>\<open>a|b|c\<close>.
\<close>

definition entry_a :: pydict where
  "entry_a = [(u ''title'', PStr (u '' Rates rise '')), (u ''link'', PStr (u ''http://n/1'')),
              (u ''summary'', PStr (u ''<b>Up</b>  again'')),
              (u ''published'', PStr (u ''2024-05-01''))]"

definition entry_b :: pydict where
  "entry_b = [(u ''title'', PStr (u ''Rates rise'')), (u ''link'', PStr (u ''http://n/1'')),
              (u ''description'', PStr (u ''other words'')),
              (u ''published_parsed'', PList [PInt 2024, PInt 5, PInt 2])]"

definition entry_bad :: pydict where
  "entry_bad = [(u ''title'', PStr [55357]), (u ''link'', PStr (u ''http://n/2''))]"

definition entry_ab_c :: pydict where
  "entry_ab_c = [(u ''title'', PStr (u ''a|b'')), (u ''link'', PStr (u ''c''))]"

definition entry_a_bc :: pydict where
  "entry_a_bc = [(u ''title'', PStr (u ''a'')), (u ''link'', PStr (u ''b|c''))]"

text \<open>
  The sources: \<open>src_a\<close> serves \<open>entry_a\<close>, \<open>src_b\<close> serves \<open>entry_b\<close> and has a
  category of its own, \<open>src_ab\<close> serves both entries, \<open>src_mixed\<close> serves \<open>entry_a\<close>
  followed by \<open>entry_bad\<close>, and the feed of \<open>src_down\<close> (like every other address)
  cannot be read. \<open>E1\<close> is \<open>E0\<close> with these feeds.
\<close>

definition src_a :: source where
  "src_a = \<lparr>name = PStr (u ''A''), url = PStr (u ''http://a/rss''), category = PNone\<rparr>"

definition src_b :: source where
  "src_b = \<lparr>name = PStr (u ''B''), url = PStr (u ''http://b/rss''),
            category = PStr (u ''economy'')\<rparr>"

definition src_down :: source where
  "src_down = \<lparr>name = PStr (u ''down''), url = PStr (u ''http://down/rss''), category = PNone\<rparr>"

definition src_ab :: source where
  "src_ab = \<lparr>name = PStr (u ''AB''), url = PStr (u ''http://ab/rss''), category = PNone\<rparr>"

definition src_mixed :: source where
  "src_mixed = \<lparr>name = PStr (u ''mixed''), url = PStr (u ''http://mixed/rss''),
                category = PNone\<rparr>"

definition E1 :: "nat env" where
  "E1 = E0\<lparr>feedparser_parse :=
            (\<lambda>n v. if v = PStr (u ''http://a/rss'') then Inr [entry_a]
                   else if v = PStr (u ''http://b/rss'') then Inr [entry_b]
                   else if v = PStr (u ''http://ab/rss'') then Inr [entry_a, entry_b]
                   else if v = PStr (u ''http://mixed/rss'') then Inr [entry_a, entry_bad]
                   else Inl (External (u ''timed out'')))\<rparr>"

text \<open>
  The items these entries become. The id is the first 16 digits of the digest of the
  bytes of \<^verbatim>\<open>Rates rise|http://n/1\<close> (of \<^verbatim>\<open>a|b|c\<close> for the last two). \<open>item_a\<close> and
  \<open>item_b\<close> carry the clock readings of a run over \<open>src_a\<close>, \<open>src_b\<close> that starts at
  0; \<open>item_ab_c\<close> and \<open>item_a_bc\<close> have no date, so their \<open>published_at\<close> is a clock
  reading too.
\<close>

definition id_rates :: pystr where
  "id_rates = take 16 (hexdigest (sha1_digest
     [82, 97, 116, 101, 115, 32, 114, 105, 115, 101, 124,
      104, 116, 116, 112, 58, 47, 47, 110, 47, 49]))"

definition item_a :: item where
  "item_a = \<lparr>item_id = id_rates, source_name = PStr (u ''A''),
             source_url = PStr (u ''http://a/rss''), item_url = u ''http://n/1'',
             title = u ''Rates rise'', summary = u ''Up again'',
             published_at = [55], fetched_at = [149], language = u ''ko'',
             item_category = PStr (u ''general''),
             tags = [u ''short_title''], content = None\<rparr>"

definition item_b :: item where
  "item_b = \<lparr>item_id = id_rates, source_name = PStr (u ''B''),
             source_url = PStr (u ''http://b/rss''), item_url = u ''http://n/1'',
             title = u ''Rates rise'', summary = u ''other words'',
             published_at = [56], fetched_at = [151], language = u ''ko'',
             item_category = PStr (u ''economy''),
             tags = [u ''short_title''], content = None\<rparr>"

definition id_abc :: pystr where
  "id_abc = take 16 (hexdigest (sha1_digest [97, 124, 98, 124, 99]))"

definition item_ab_c :: item where
  "item_ab_c = \<lparr>item_id = id_abc, source_name = PStr (u ''A''),
                source_url = PStr (u ''http://a/rss''), item_url = u ''c'',
                title = u ''a|b'', summary = [],
                published_at = [148], fetched_at = [149], language = u ''ko'',
                item_category = PStr (u ''general''),
                tags = [u ''short_title''], content = None\<rparr>"

definition item_a_bc :: item where
  "item_a_bc = \<lparr>item_id = id_abc, source_name = PStr (u ''B''),
                source_url = PStr (u ''http://b/rss''), item_url = u ''b|c'',
                title = u ''a'', summary = [],
                published_at = [150], fetched_at = [151], language = u ''ko'',
                item_category = PStr (u ''economy''),
                tags = [u ''short_title''], content = None\<rparr>"

text \<open>
  \<open>E2\<close> is \<open>E1\<close> with a file \<^verbatim>\<open>sources.yaml\<close> whose document lists the sources A, down
  and B; in \<open>E_blank\<close> the file exists and is empty (it loads as \<^verbatim>\<open>None\<close>).
\<close>

definition doc_sources :: pyval where
  "doc_sources = PDict [(u ''sources'', PList
     [PDict [(u ''name'', PStr (u ''A'')), (u ''url'', PStr (u ''http://a/rss''))],
      PDict [(u ''name'', PStr (u ''down'')), (u ''url'', PStr (u ''http://down/rss''))],
      PDict [(u ''name'', PStr (u ''B'')), (u ''url'', PStr (u ''http://b/rss'')),
             (u ''category'', PStr (u ''economy''))]])]"

definition E2 :: "nat env" where
  "E2 = E1\<lparr>open_read := (\<lambda>p. if p = u ''sources.yaml'' then Inr (u ''sources: ...'')
                             else Inl FileNotFoundError),
            safe_load := (\<lambda>s. if s = u ''sources: ...'' then Inr doc_sources else Inr PNone)\<rparr>"

definition E_blank :: "nat env" where
  "E_blank = E0\<lparr>open_read := (\<lambda>p. if p = u ''sources.yaml'' then Inr []
                                  else Inl FileNotFoundError)\<rparr>"

section \<open>Properties of the labelling\<close>

lemma str_in_iff: "str_in w t \<longleftrightarrow> (\<exists>p q. t = p @ w @ q)"
proof (induction t)
  case Nil
  then show ?case by auto
next
  case (Cons c cs)
  show ?case
  proof
    assume "str_in w (c # cs)"
    then consider "prefix w (c # cs)" | "str_in w cs" by auto
    then show "\<exists>p q. c # cs = p @ w @ q"
    proof cases
      case 1
      then obtain q where "c # cs = w @ q" by (auto simp: prefix_def)
      then have "c # cs = [] @ w @ q" by simp
      then show ?thesis by blast
    next
      case 2
      with Cons.IH obtain p q where "cs = p @ w @ q" by blast
      then have "c # cs = (c # p) @ w @ q" by simp
      then show ?thesis by blast
    qed
  next
    assume "\<exists>p q. c # cs = p @ w @ q"
    then obtain p q where pq: "c # cs = p @ w @ q" by blast
    show "str_in w (c # cs)"
    proof (cases p)
      case Nil
      with pq have "prefix w (c # cs)" by (simp add: prefix_def)
      then show ?thesis by simp
    next
      case (Cons a p')
      with pq have "cs = p' @ w @ q" by simp
      with Cons.IH have "str_in w cs" by blast
      then show ?thesis by simp
    qed
  qed
qed

lemma any_in_iff: "any_in ws t \<longleftrightarrow> (\<exists>w\<in>set ws. \<exists>p q. t = p @ w @ q)"
  by (simp add: any_in_def list_ex_iff str_in_iff)

lemma first_group_label_any_in:
  "first_group_label text =
     (case find (\<lambda>g. any_in (snd g) text) keyword_groups of
        Some g \<Rightarrow> fst g
      | None \<Rightarrow> ''general'')"
  by (simp add: first_group_label_def any_in_iff)

text \<open>
  C6 (as amended). The categorizer returns the override unchanged whenever the override
  is truthy: \<^verbatim>\<open>None\<close> and the empty string (and every other falsy value) count as no
  override, and nothing checks the value against the label set. Otherwise it returns the
  label of the first group, in the order politics, economy, society, culture,
  it_science, sports, one of whose keywords is a substring of the title, one space and
  the summary; \<open>general\<close> when no group matches. A text with keywords of two groups
  therefore gets the earlier group's label.
\<close>

theorem guess_category_override_then_first_group:
  "guess_category t s c =
     (if truthy c then c else PStr (u (first_group_label (t @ [32] @ s))))"
  by (simp add: guess_category_def first_group_label_def keyword_groups_def Let_def any_in_iff)

text \<open>
  The title holds an economy keyword (U+ACBD U+C81C) and the summary a sports keyword
  (U+CD95 U+AD6C): the label is \<open>economy\<close>; the override \<open>weather\<close>, no label of the set,
  comes back as it is.
\<close>

theorem guess_category_witness:
  "guess_category [44221, 51228] [52629, 44396] PNone = PStr (u ''economy'') \<and>
   guess_category [44221, 51228] [52629, 44396] (PStr (u ''weather'')) = PStr (u ''weather'') \<and>
   guess_category [52629, 44396] [] PNone = PStr (u ''sports'') \<and>
   guess_category (u ''hello'') [] (PStr []) = PStr (u ''general'')"
  using guess_category_override_then_first_group [of "[44221, 51228]" "[52629, 44396]" PNone]
        guess_category_override_then_first_group
          [of "[44221, 51228]" "[52629, 44396]" "PStr (u ''weather'')"]
  by (simp add: guess_category_def any_in_def POLITICS_KW_def ECONOMY_KW_def SOCIETY_KW_def
      CULTURE_KW_def ITSCI_KW_def SPORTS_KW_def u_def)

text \<open>
  Read literally, C6 fails at two inputs. A source whose document says \<^verbatim>\<open>category: ""\<close>
  has an override, the empty string, yet an article titled U+ACBD U+C81C is labelled
  \<open>economy\<close>: line 66 tests the truth value of the override. And with the title U+ACBD
  and the summary U+C81C the concatenation of title and summary is the economy keyword
  U+ACBD U+C81C, yet the label is \<open>general\<close>: line 68 puts a space between the two.
\<close>

theorem guess_category_counterexample:
  "guess_category [44221, 51228] [] (PStr []) = PStr (u ''economy'') \<and>
   categorizer_as_worded [44221, 51228] [] (PStr []) = PStr [] \<and>
   guess_category [44221] [51228] PNone = PStr (u ''general'') \<and>
   categorizer_as_worded [44221] [51228] PNone = PStr (u ''economy'')"
  by (simp add: guess_category_def categorizer_as_worded_def first_group_label_any_in
      keyword_groups_def any_in_def POLITICS_KW_def ECONOMY_KW_def SOCIETY_KW_def
      CULTURE_KW_def ITSCI_KW_def SPORTS_KW_def u_def)

lemma tag_names_distinct:
  "u ''short_title'' \<noteq> u ''breaking''" "u ''short_title'' \<noteq> u ''analysis''"
  "u ''short_title'' \<noteq> u ''opinion''"
  by (simp_all add: u_def)

text \<open>
  C7. For every title and summary the tagger's output is sorted in the lexicographic
  order of strings and has no duplicates, and it contains \<open>short_title\<close> exactly when the
  title has at most 25 characters (code points).
\<close>

theorem make_tags_sorted_unique:
  "sorted (make_tags t s) \<and> distinct (make_tags t s) \<and>
   (u ''short_title'' \<in> set (make_tags t s) \<longleftrightarrow> length t \<le> 25)"
proof -
  obtain A where A: "make_tags t s = sorted_list_of_set A" and fin: "finite A"
    and mem: "u ''short_title'' \<in> A \<longleftrightarrow> length t \<le> 25"
    by (simp add: make_tags_def Let_def tag_names_distinct)
  show ?thesis using fin mem by (simp add: A)
qed

text \<open>A title of 25 Korean characters has the tag, one of 26 has not.\<close>

theorem make_tags_short_title_witness:
  "u ''short_title'' \<in> set (make_tags (replicate 25 54620) []) \<and>
   u ''short_title'' \<notin> set (make_tags (replicate 26 54620) []) \<and>
   sorted (make_tags (replicate 26 54620) []) \<and> distinct (make_tags (replicate 25 54620) [])"
  using make_tags_sorted_unique [of "replicate 25 54620" "[]"]
        make_tags_sorted_unique [of "replicate 26 54620" "[]"]
  by simp

section \<open>Properties of the time resolver\<close>

lemma first_parsed_attempts:
  "first_parsed conv e keys =
     (case List.map_filter id (map (attempt conv e) keys) of [] \<Rightarrow> None | t # rest \<Rightarrow> Some t)"
  by (induction keys) (simp_all add: List.map_filter_def attempt_def Let_def split: option.splits)

lemma map_filter_append:
  "List.map_filter f (xs @ ys) = List.map_filter f xs @ List.map_filter f ys"
  by (simp add: List.map_filter_def)

text \<open>
  C5. For every entry the time resolver returns the result of the first strategy that
  succeeds, in the order: the strings \<open>published\<close>, \<open>updated\<close>, \<open>pubDate\<close> through the
  lenient parser, then the tuples \<open>published_parsed\<close>, \<open>updated_parsed\<close> read as UTC; a
  strategy that fails (field absent or empty, or the conversion raises) hands over to the
  next. When all five fail the result is the reading of the clock in the fixed zone, and
  only then is the clock read. The function is total: it returns a time and has no error
  result.
\<close>

theorem parse_time_first_success:
  "parse_time env e n =
     (case List.map_filter id (strategies env e) of
        t # rest \<Rightarrow> (t, n)
      | [] \<Rightarrow> (clock env n, Suc n))"
proof -
  let ?A = "List.map_filter id
    (map (attempt (parse_string env) e) [u ''published'', u ''updated'', u ''pubDate''])"
  let ?B = "List.map_filter id
    (map (attempt (parse_tuple env) e) [u ''published_parsed'', u ''updated_parsed''])"
  have s: "List.map_filter id (strategies env e) = ?A @ ?B"
    unfolding strategies_def map_filter_append ..
  have p: "parse_time env e n =
      (case ?A of t # rest \<Rightarrow> (t, n)
       | [] \<Rightarrow> (case ?B of t # rest \<Rightarrow> (t, n) | [] \<Rightarrow> (clock env n, Suc n)))"
    unfolding parse_time_def first_parsed_attempts now_kst_def
    by (cases ?A; cases ?B) simp_all
  show ?thesis unfolding s p by (cases ?A; cases ?B) simp_all
qed

text \<open>
  \<open>published\<close> does not parse and \<open>updated\<close> does: the time of \<open>updated\<close>. No string
  parses and \<open>published_parsed\<close> converts: its time. Nothing usable: the clock, read once.
\<close>

theorem parse_time_witness:
  "parse_time E0 [(u ''published'', PStr (u ''soon'')),
                  (u ''updated'', PStr (u ''2024-05-01''))] 3 = (7, 3) \<and>
   parse_time E0 [(u ''published'', PStr (u ''soon'')),
                  (u ''published_parsed'', PList [PInt 2024, PInt 5, PInt 2])] 3 = (8, 3) \<and>
   parse_time E0 [(u ''published'', PStr (u ''soon'')), (u ''updated'', PStr [])] 3 = (103, 4)"
  using parse_time_first_success [of E0 "[(u ''published'', PStr (u ''soon'')),
          (u ''updated'', PStr (u ''2024-05-01''))]" 3]
    parse_time_first_success [of E0 "[(u ''published'', PStr (u ''soon'')),
          (u ''published_parsed'', PList [PInt 2024, PInt 5, PInt 2])]" 3]
    parse_time_first_success [of E0 "[(u ''published'', PStr (u ''soon'')),
          (u ''updated'', PStr [])]" 3]
  by (simp add: strategies_def attempt_def List.map_filter_def dict_get_def parse_string_def
      parse_tuple_def E0_def u_def)

section \<open>Properties of the aggregation pipeline\<close>

subsection \<open>Slicing\<close>

lemma slice_to_take: "\<exists>k. slice_to n xs = take k xs"
  by (auto simp: slice_to_def)

lemma slice_to_nonneg: "0 \<le> n \<Longrightarrow> slice_to n xs = take (nat n) xs"
  by (simp add: slice_to_def)

lemma slice_to_all: "int (length xs) \<le> n \<Longrightarrow> slice_to n xs = xs"
  by (simp add: slice_to_def)

lemma length_slice_to_le: "length (slice_to n xs) \<le> length xs"
  by (simp add: slice_to_def)

lemma length_slice_to_nonneg:
  "0 \<le> n \<Longrightarrow> int (length (slice_to n xs)) = min n (int (length xs))"
  by (simp add: slice_to_def)

lemma set_slice_to: "set (slice_to n xs) \<subseteq> set xs"
  using slice_to_take [of n xs] by (auto dest: in_set_takeD)

subsection \<open>The descending stable sort\<close>

lemma set_sorted_reverse [simp]: "set (sorted_reverse f xs) = set xs"
  by (simp add: sorted_reverse_def)

lemma length_sorted_reverse [simp]: "length (sorted_reverse f xs) = length xs"
  by (simp add: sorted_reverse_def)

lemma sorted_reverse_descending:
  fixes f :: "'a \<Rightarrow> 'k::linorder"
  shows "sorted_wrt (\<lambda>x y. f y \<le> f x) (sorted_reverse f xs)"
proof -
  have "sorted (map f (sort_key f (rev xs)))" by (rule sorted_sort_key)
  then have "sorted_wrt (\<lambda>x y. f x \<le> f y) (sort_key f (rev xs))"
    by (simp add: sorted_wrt_map)
  then show ?thesis
    by (simp add: sorted_reverse_def sorted_wrt_rev)
qed

lemma sorted_reverse_stable:
  "filter (\<lambda>x. f x = k) (sorted_reverse f xs) = filter (\<lambda>x. f x = k) xs"
proof -
  have "filter (\<lambda>x. f x = k) (sorted_reverse f xs)
        = rev (filter (\<lambda>x. f x = k) (sort_key f (rev xs)))"
    by (simp add: sorted_reverse_def rev_filter)
  also have "\<dots> = rev (filter (\<lambda>x. f x = k) (rev xs))"
    by (simp only: sort_key_stable)
  also have "\<dots> = filter (\<lambda>x. f x = k) xs"
    by (simp add: rev_filter)
  finally show ?thesis .
qed

lemma sorted_reverse_single [simp]: "sorted_reverse f [x] = [x]"
  by (simp add: sorted_reverse_def)

subsection \<open>First occurrences\<close>

lemma drop_duplicates_cong:
  "set s1 = set s2 \<Longrightarrow> drop_duplicates s1 xs = drop_duplicates s2 xs"
proof (induction xs arbitrary: s1 s2)
  case Nil
  show ?case by simp
next
  case (Cons x xs)
  have mem: "item_id x \<in> set s1 \<longleftrightarrow> item_id x \<in> set s2"
    using Cons.prems by simp
  have a: "drop_duplicates s1 xs = drop_duplicates s2 xs"
    using Cons.prems by (rule Cons.IH)
  have "set (item_id x # s1) = set (item_id x # s2)"
    using Cons.prems by simp
  then have b: "drop_duplicates (item_id x # s1) xs = drop_duplicates (item_id x # s2) xs"
    by (rule Cons.IH)
  show ?case
    by (simp only: drop_duplicates.simps mem a b)
qed

lemma set_drop_duplicates: "set (drop_duplicates seen xs) \<subseteq> set xs"
  by (induction xs arbitrary: seen) auto

lemma ids_drop_duplicates:
  "item_id ` set (drop_duplicates seen xs) = item_id ` set xs - set seen"
  by (induction xs arbitrary: seen) auto

lemma distinct_drop_duplicates: "distinct (map item_id (drop_duplicates seen xs))"
proof (induction xs arbitrary: seen)
  case Nil
  then show ?case by simp
next
  case (Cons x xs)
  have "item_id x \<notin> item_id ` set (drop_duplicates (item_id x # seen) xs)"
    by (simp add: ids_drop_duplicates)
  with Cons show ?case by simp
qed

lemma subseq_drop_duplicates: "subseq (drop_duplicates seen xs) xs"
  by (induction xs arbitrary: seen) auto

lemma sorted_wrt_drop_duplicates:
  "sorted_wrt P xs \<Longrightarrow> sorted_wrt P (drop_duplicates seen xs)"
proof (induction xs arbitrary: seen)
  case Nil
  then show ?case by simp
next
  case (Cons x xs)
  then show ?case
    using set_drop_duplicates [of "item_id x # seen" xs] by auto
qed

lemma filter_drop_duplicates:
  "filter (\<lambda>y. item_id y = k) (drop_duplicates seen xs) =
     (if k \<in> set seen then [] else take 1 (filter (\<lambda>y. item_id y = k) xs))"
proof (induction xs arbitrary: seen)
  case Nil
  then show ?case by simp
next
  case (Cons x xs)
  show ?case
  proof (cases "item_id x \<in> set seen")
    case True
    then have dd: "drop_duplicates seen (x # xs) = drop_duplicates seen xs" by simp
    show ?thesis
    proof (cases "k \<in> set seen")
      case True
      then show ?thesis unfolding dd Cons.IH by simp
    next
      case False
      with \<open>item_id x \<in> set seen\<close> have "item_id x \<noteq> k" by blast
      with False show ?thesis unfolding dd Cons.IH by simp
    qed
  next
    case False
    then have dd: "drop_duplicates seen (x # xs) = x # drop_duplicates (item_id x # seen) xs"
      by simp
    show ?thesis
    proof (cases "item_id x = k")
      case True
      with False have "k \<notin> set seen" by simp
      with True show ?thesis unfolding dd by (simp add: Cons.IH)
    next
      case neq: False
      then show ?thesis unfolding dd by (simp add: Cons.IH)
    qed
  qed
qed

lemma drop_duplicates_distinct_id:
  "distinct (map item_id xs) \<Longrightarrow> set seen \<inter> item_id ` set xs = {} \<Longrightarrow> drop_duplicates seen xs = xs"
  by (induction xs arbitrary: seen) auto

lemma length_drop_duplicates_le: "length (drop_duplicates seen xs) \<le> length xs"
  by (induction xs arbitrary: seen) (auto intro: le_SucI)

subsection \<open>The dictionary of first occurrences\<close>

lemma uniq_fold:
  "map snd (foldl (\<lambda>uniq it. setdefault uniq (item_id it) it) d xs) =
     map snd d @ drop_duplicates (map fst d) xs"
proof (induction xs arbitrary: d)
  case Nil
  then show ?case by simp
next
  case (Cons x xs)
  show ?case
  proof (cases "map_of d (item_id x) = None")
    case True
    then have notin: "item_id x \<notin> set (map fst d)"
      by (simp add: map_of_eq_None_iff)
    have step: "setdefault d (item_id x) x = d @ [(item_id x, x)]"
      using True by (simp add: setdefault_def)
    have "drop_duplicates (map fst (d @ [(item_id x, x)])) xs
          = drop_duplicates (item_id x # map fst d) xs"
      by (rule drop_duplicates_cong) auto
    then show ?thesis
      using notin by (simp add: Cons.IH step)
  next
    case False
    then have isin: "item_id x \<in> set (map fst d)"
      by (simp add: map_of_eq_None_iff)
    have step: "setdefault d (item_id x) x = d"
      using False by (simp add: setdefault_def)
    show ?thesis
      using isin by (simp add: Cons.IH step)
  qed
qed

lemma aggregate_eq:
  "aggregate lim xs = slice_to lim (drop_duplicates [] (sorted_reverse published_at xs))"
  using uniq_fold [of "[]" "sorted_reverse published_at xs"]
  by (simp add: aggregate_def Let_def)

lemma sorted_wrt_slice_to: "sorted_wrt P xs \<Longrightarrow> sorted_wrt P (slice_to n xs)"
proof -
  assume a: "sorted_wrt P xs"
  obtain k where "slice_to n xs = take k xs" using slice_to_take by blast
  then show ?thesis using a by (simp add: sorted_wrt_take)
qed

lemma distinct_map_slice_to: "distinct (map f xs) \<Longrightarrow> distinct (map f (slice_to n xs))"
proof -
  assume a: "distinct (map f xs)"
  obtain k where k: "slice_to n xs = take k xs" using slice_to_take by blast
  have "distinct (take k (map f xs))" using a by (rule distinct_take)
  then show ?thesis by (simp add: k take_map)
qed

lemma aggregate_descending:
  "sorted_wrt (\<lambda>x y. published_at y \<le> published_at x) (aggregate lim xs)"
proof -
  have "sorted_wrt (\<lambda>x y. published_at y \<le> published_at x) (sorted_reverse published_at xs)"
    by (rule sorted_reverse_descending)
  then have "sorted_wrt (\<lambda>x y. published_at y \<le> published_at x)
      (drop_duplicates [] (sorted_reverse published_at xs))"
    by (rule sorted_wrt_drop_duplicates)
  then show ?thesis
    unfolding aggregate_eq by (rule sorted_wrt_slice_to)
qed

lemma aggregate_distinct: "distinct (map item_id (aggregate lim xs))"
  unfolding aggregate_eq
  by (rule distinct_map_slice_to) (rule distinct_drop_duplicates)

lemma descending_hd_max:
  fixes f :: "'a \<Rightarrow> 'k::linorder"
  shows "sorted_wrt (\<lambda>x y. f y \<le> f x) xs \<Longrightarrow> y \<in> set xs \<Longrightarrow> f y \<le> f (hd xs)"
  by (cases xs) auto

lemma first_occurrence_most_recent:
  assumes desc: "sorted_wrt (\<lambda>x y. published_at y \<le> published_at x) S"
    and x: "x \<in> set (drop_duplicates [] S)"
    and y: "y \<in> set S" and same: "item_id y = item_id x"
  shows "published_at y \<le> published_at x"
proof -
  let ?F = "filter (\<lambda>z. item_id z = item_id x) S"
  have "x \<in> set (filter (\<lambda>z. item_id z = item_id x) (drop_duplicates [] S))"
    using x by simp
  then have "x \<in> set (take 1 ?F)"
    by (simp add: filter_drop_duplicates)
  then have hd: "x = hd ?F"
    by (cases ?F) simp_all
  have "sorted_wrt (\<lambda>x y. published_at y \<le> published_at x) ?F"
    using desc by (rule sorted_wrt_filter)
  moreover have "y \<in> set ?F" using y same by simp
  ultimately have "published_at y \<le> published_at (hd ?F)"
    by (rule descending_hd_max)
  then show ?thesis using hd by simp
qed

lemma aggregate_most_recent:
  assumes x: "x \<in> set (aggregate lim xs)" and y: "y \<in> set xs"
    and same: "item_id y = item_id x"
  shows "published_at y \<le> published_at x"
proof -
  let ?S = "sorted_reverse published_at xs"
  have sub: "set (slice_to lim (drop_duplicates [] ?S)) \<subseteq> set (drop_duplicates [] ?S)"
    by (rule set_slice_to)
  have "x \<in> set (slice_to lim (drop_duplicates [] ?S))"
    using x by (simp only: aggregate_eq)
  with sub have xin: "x \<in> set (drop_duplicates [] ?S)" by (rule subsetD)
  have yin: "y \<in> set ?S"
    using y by (simp only: set_sorted_reverse)
  have desc: "sorted_wrt (\<lambda>x y. published_at y \<le> published_at x) ?S"
    by (rule sorted_reverse_descending)
  show ?thesis
    by (rule first_occurrence_most_recent [OF desc xin yin same])
qed

subsection \<open>The loop over the sources\<close>

lemma collect_trace:
  "collect env psl srcs (acc, lg, n) =
     (acc @ concat (map (kept psl) (fetch_trace env srcs n)),
      lg @ warnings srcs (fetch_trace env srcs n),
      fetch_end env srcs n)"
proof (induction srcs arbitrary: acc lg n)
  case Nil
  show ?case by simp
next
  case (Cons src rest)
  obtain r n1 where f: "fetch_rss env src n = (r, n1)" by (cases "fetch_rss env src n")
  show ?case
  proof (cases r)
    case (Inl e)
    then show ?thesis using f by (simp add: Cons.IH kept_def)
  next
    case (Inr items)
    then show ?thesis using f by (simp add: Cons.IH kept_def)
  qed
qed

lemma length_kept:
  "0 \<le> psl \<Longrightarrow> int (length (kept psl r)) = min psl (int (fetched r))"
  by (cases r) (simp_all add: kept_def fetched_def length_slice_to_nonneg)

lemma length_concat_kept:
  "0 \<le> psl \<Longrightarrow>
   int (length (concat (map (kept psl) rs))) = (\<Sum>r\<leftarrow>rs. min psl (int (fetched r)))"
  by (induction rs) (simp_all add: length_kept)

lemma length_aggregate_le: "length (aggregate lim xs) \<le> length xs"
proof -
  have "length (aggregate lim xs) \<le> length (drop_duplicates [] (sorted_reverse published_at xs))"
    unfolding aggregate_eq by (rule length_slice_to_le)
  also have "\<dots> \<le> length (sorted_reverse published_at xs)"
    by (rule length_drop_duplicates_le)
  finally show ?thesis by simp
qed

lemma length_aggregate_limit: "0 \<le> lim \<Longrightarrow> int (length (aggregate lim xs)) \<le> lim"
  unfolding aggregate_eq by (simp add: length_slice_to_nonneg)

subsection \<open>Enrichment and the data frame\<close>

lemma enrich_loop_map:
  assumes f: "\<And>it c. f (it\<lparr>content := c\<rparr>) = f it"
  shows "map f (fst (enrich_loop env limit i items n)) = map f items"
proof (induction items arbitrary: i n)
  case Nil
  show ?case by simp
next
  case (Cons it items)
  show ?case
  proof (cases "limit \<le> int i")
    case True
    then show ?thesis by simp
  next
    case False
    show ?thesis
    proof (cases "item_url it = []")
      case True
      obtain rest n2 where r: "enrich_loop env limit (Suc i) items n = (rest, n2)"
        by (cases "enrich_loop env limit (Suc i) items n")
      have "map f rest = map f items"
        using Cons.IH [of "Suc i" n] r by simp
      then show ?thesis using False True r by simp
    next
      case nonempty: False
      obtain body n1 where b: "fetch_fulltext env (item_url it) n = (body, n1)"
        by (cases "fetch_fulltext env (item_url it) n")
      obtain rest n2 where r: "enrich_loop env limit (Suc i) items n1 = (rest, n2)"
        by (cases "enrich_loop env limit (Suc i) items n1")
      have "map f rest = map f items"
        using Cons.IH [of "Suc i" n1] r by simp
      then show ?thesis using False nonempty b r by (cases body) (simp_all add: f)
    qed
  qed
qed

lemma enrich_loop_ids:
  "map item_id (fst (enrich_loop env limit i items n)) = map item_id items"
  by (rule enrich_loop_map) simp

lemma enrich_loop_published:
  "map published_at (fst (enrich_loop env limit i items n)) = map published_at items"
  by (rule enrich_loop_map) simp

lemma to_frame_distinct: "distinct (map item_id items) \<Longrightarrow> to_frame items = items"
  unfolding to_frame_def by (rule drop_duplicates_distinct_id) simp_all

lemma save_rows: "save env items n = Saved rows \<Longrightarrow> rows = to_frame items"
  by (simp add: save_def Let_def split: option.splits)

lemma main_saved_cases:
  assumes "main env environ = (Saved rows, lg)"
  obtains lim all_items n where "save env (aggregate lim all_items) n = Saved rows"
  | lim all_items n limit n2 where
      "save env (fst (enrich_loop env limit 0 (aggregate lim all_items) n)) n2 = Saved rows"
proof -
  from assms show ?thesis
    unfolding main_def Let_def enrich_fulltext_def
    by (simp split: sum.splits if_splits prod.splits) (metis fst_conv that)+
qed

subsection \<open>Further facts about the loop and the cut\<close>

lemma collect_append:
  "collect env psl (xs @ ys) st = collect env psl ys (collect env psl xs st)"
proof (induction xs arbitrary: st)
  case Nil
  show ?case by simp
next
  case (Cons src rest)
  obtain a l n where st: "st = (a, l, n)" by (cases st)
  obtain r n1 where f: "fetch_rss env src n = (r, n1)" by (cases "fetch_rss env src n")
  show ?case unfolding st by (cases r) (simp_all add: f Cons.IH)
qed

lemma collect_from_empty:
  "collect env psl srcs (acc, lg, n) =
     (acc @ fst (collect env psl srcs ([], [], n)),
      lg @ fst (snd (collect env psl srcs ([], [], n))),
      snd (snd (collect env psl srcs ([], [], n))))"
  by (simp add: collect_trace)

lemma length_fetch_trace: "length (fetch_trace env srcs n) = length srcs"
  by (induction srcs arbitrary: n) simp_all

lemma sum_list_fetched:
  "(\<Sum>r\<leftarrow>rs. min psl (int (fetched r))) = (\<Sum>k\<leftarrow>map fetched rs. min psl (int k))"
  by (simp add: comp_def)

lemma sorted_reverse_pair:
  "sorted_reverse f [a, b] = (if f b \<le> f a then [a, b] else [b, a])"
  by (simp add: sorted_reverse_def)

lemma aggregate_pair_same_id:
  assumes "item_id a = item_id b" and "1 \<le> lim"
  shows "aggregate lim [a, b] = [if published_at b \<le> published_at a then a else b]"
proof -
  have one: "slice_to lim [x] = [x]" for x :: item
    using assms(2) by (simp add: slice_to_def)
  show ?thesis
    unfolding aggregate_eq sorted_reverse_pair
    using assms(1) by (simp add: one)
qed

lemma rows_like_items:
  assumes ids: "map item_id ys = map item_id xs"
    and times: "map published_at ys = map published_at xs"
    and d: "distinct (map item_id xs)"
    and s: "sorted_wrt (\<lambda>x y. published_at y \<le> published_at x) xs"
  shows "sorted_wrt (\<lambda>x y. published_at y \<le> published_at x) (to_frame ys) \<and>
         distinct (map item_id (to_frame ys))"
proof -
  have dy: "distinct (map item_id ys)" using d ids by simp
  then have tf: "to_frame ys = ys" by (rule to_frame_distinct)
  have "sorted_wrt (\<lambda>a b. b \<le> a) (map published_at xs)"
    using s by (simp add: sorted_wrt_map)
  then have "sorted_wrt (\<lambda>a b. b \<le> a) (map published_at ys)"
    using times by simp
  then have "sorted_wrt (\<lambda>x y. published_at y \<le> published_at x) ys"
    by (simp add: sorted_wrt_map)
  then show ?thesis using dy tf by simp
qed

section \<open>Properties of the fingerprint\<close>

subsection \<open>Hexadecimal digests\<close>

lemma hexdigit_range: "n < 16 \<Longrightarrow> hexdigit n \<in> set (u ''0123456789abcdef'')"
proof -
  assume "n < 16"
  then have n: "n \<in> set [0..<16]" by simp
  have "\<forall>n \<in> set [0..<16]. hexdigit n \<in> set (u ''0123456789abcdef'')"
    by (simp add: upt_rec hexdigit_def u_def)
  then show ?thesis using n by (rule bspec)
qed

lemma nibble_bound: "unat ((w::w32) AND 15) < 16"
proof -
  have "w AND 15 \<le> 15" by (rule word_and_le1)
  then have "unat (w AND 15) \<le> unat (15 :: w32)" by (simp only: word_le_nat_alt)
  also have "unat (15 :: w32) = 15" by simp
  finally show ?thesis by simp
qed

lemma length_hex32: "length (hex32 w) = 8"
  by (simp add: hex32_def)

lemma set_hex32: "set (hex32 w) \<subseteq> set (u ''0123456789abcdef'')"
proof
  fix c assume "c \<in> set (hex32 w)"
  then have "c \<in> (\<lambda>i. hexdigit (unat (drop_bit (4 * i) w AND 15))) ` set [7, 6, 5, 4, 3, 2, 1, 0::nat]"
    by (simp only: hex32_def set_map)
  then obtain i where "c = hexdigit (unat (drop_bit (4 * i) w AND 15))"
    by (rule imageE)
  then show "c \<in> set (u ''0123456789abcdef'')"
    using hexdigit_range [OF nibble_bound] by simp
qed

lemma length_hexdigest: "length (hexdigest h) = 40"
  by (cases h) (simp add: hexdigest_def length_hex32)

lemma set_hexdigest: "set (hexdigest h) \<subseteq> set (u ''0123456789abcdef'')"
proof -
  obtain h0 h1 h2 h3 h4 where h: "h = (h0, h1, h2, h3, h4)" by (cases h)
  have "set (hexdigest h) = set (hex32 h0) \<union> set (hex32 h1) \<union> set (hex32 h2) \<union> set (hex32 h3) \<union> set (hex32 h4)"
    unfolding h by (simp add: hexdigest_def Un_assoc)
  then show ?thesis using set_hex32 by blast
qed

lemma sha1_hex:
  assumes "sha1 parts = Inr h"
  shows "length h = 40 \<and> set h \<subseteq> set (u ''0123456789abcdef'')"
proof -
  from assms obtain bs where "h = hexdigest (sha1_digest bs)"
    by (auto simp: sha1_def split: sum.splits)
  then show ?thesis by (simp add: length_hexdigest set_hexdigest)
qed

lemma sha1_joined:
  "t1 @ [124] @ l1 = t2 @ [124] @ l2 \<Longrightarrow> sha1 [t1, l1] = sha1 [t2, l2]"
  by (simp add: sha1_def)

subsection \<open>The id of an item\<close>

lemma make_item_id:
  assumes "fst (make_item env src e n) = Inr it"
  shows "map_sum (\<lambda>err. err) (take 16) (sha1 [title it, item_url it]) = Inr (item_id it)"
  using assms unfolding make_item_def
  by (simp split: sum.splits prod.splits) fastforce

lemma make_item_fields:
  assumes "fst (make_item env src e n) = Inr it"
  shows "strip_val (py_or (dict_get e (u ''title'')) (PStr [])) = Inr (title it)"
    and "strip_val (py_or (dict_get e (u ''link'')) (PStr [])) = Inr (item_url it)"
  using assms unfolding make_item_def
  by (auto split: sum.splits prod.splits)

lemma item_id_take:
  assumes "map_sum (\<lambda>err. err) (take 16) (sha1 [t, l]) = Inr i"
  shows "\<exists>h. sha1 [t, l] = Inr h \<and> i = take 16 h"
  using assms by (cases "sha1 [t, l]") auto

lemma items_loop_made:
  "items_loop env src es n = (Inr items, k) \<Longrightarrow> it \<in> set items \<Longrightarrow>
   \<exists>e m. fst (make_item env src e m) = Inr it"
proof (induction es arbitrary: n items)
  case Nil
  then show ?case by simp
next
  case (Cons e es)
  obtain r n1 where m: "make_item env src e n = (r, n1)" by (cases "make_item env src e n")
  show ?case
  proof (cases r)
    case (Inl err)
    with m Cons.prems(1) show ?thesis by simp
  next
    case (Inr x)
    obtain r2 n2 where l: "items_loop env src es n1 = (r2, n2)"
      by (cases "items_loop env src es n1")
    show ?thesis
    proof (cases r2)
      case (Inl err)
      with m Inr l Cons.prems(1) show ?thesis by simp
    next
      case rest: (Inr others)
      have items: "items = x # others" and k: "n2 = k"
        using m Inr l rest Cons.prems(1) by simp_all
      show ?thesis
      proof (cases "it = x")
        case True
        have "fst (make_item env src e n) = Inr it" using m Inr True by simp
        then show ?thesis by blast
      next
        case False
        then have mem: "it \<in> set others" using Cons.prems(2) items by simp
        have loop: "items_loop env src es n1 = (Inr others, k)" using l rest k by simp
        show ?thesis by (rule Cons.IH [OF loop mem])
      qed
    qed
  qed
qed

lemma items_loop_failure:
  "items_loop env src es1 n = (Inr items1, k) \<Longrightarrow> make_item env src bad k = (Inl e, n1) \<Longrightarrow>
   items_loop env src (es1 @ bad # es2) n = (Inl e, n1)"
proof (induction es1 arbitrary: n items1)
  case Nil
  then show ?case by simp
next
  case (Cons e0 es)
  obtain r m where mk: "make_item env src e0 n = (r, m)" by (cases "make_item env src e0 n")
  show ?case
  proof (cases r)
    case (Inl err)
    with mk Cons.prems(1) show ?thesis by simp
  next
    case (Inr x)
    obtain r2 n2 where l: "items_loop env src es m = (r2, n2)"
      by (cases "items_loop env src es m")
    show ?thesis
    proof (cases r2)
      case (Inl err)
      with mk Inr l Cons.prems(1) show ?thesis by simp
    next
      case rest: (Inr others)
      have "n2 = k" using mk Inr l rest Cons.prems(1) by simp
      then have "items_loop env src es m = (Inr others, k)" using l rest by simp
      then have "items_loop env src (es @ bad # es2) m = (Inl e, n1)"
        using Cons.prems(2) by (rule Cons.IH)
      then show ?thesis using mk Inr by simp
    qed
  qed
qed

lemma fetched_item_id:
  assumes "fetch_rss env src n = (Inr items, k)" and "it \<in> set items"
  shows "map_sum (\<lambda>err. err) (take 16) (sha1 [title it, item_url it]) = Inr (item_id it)"
proof -
  have "\<exists>es m. items_loop env src es m = (Inr items, k)"
    using assms(1) by (auto simp: fetch_rss_def split: sum.splits)
  then obtain es m where "items_loop env src es m = (Inr items, k)" by blast
  then have "\<exists>e m. fst (make_item env src e m) = Inr it"
    using assms(2) by (rule items_loop_made)
  then obtain e m' where "fst (make_item env src e m') = Inr it" by blast
  then show ?thesis by (rule make_item_id)
qed

section \<open>Concrete runs\<close>

lemma sha1_rates: "sha1 [u ''Rates rise'', u ''http://n/1''] =
    Inr (hexdigest (sha1_digest
     [82, 97, 116, 101, 115, 32, 114, 105, 115, 101, 124,
      104, 116, 116, 112, 58, 47, 47, 110, 47, 49]))"
  by (simp add: sha1_def u_def utf8_char_def)

lemma labels_rates:
  "guess_category (u ''Rates rise'') (u ''Up again'') PNone = PStr (u ''general'')"
  "guess_category (u ''Rates rise'') (u ''other words'') (PStr (u ''economy'')) =
     PStr (u ''economy'')"
  "make_tags (u ''Rates rise'') (u ''Up again'') = [u ''short_title'']"
  "make_tags (u ''Rates rise'') (u ''other words'') = [u ''short_title'']"
  by (simp_all add: guess_category_def make_tags_def any_in_def POLITICS_KW_def ECONOMY_KW_def
      SOCIETY_KW_def CULTURE_KW_def ITSCI_KW_def SPORTS_KW_def u_def)

lemma title_a: "strip_val (py_or (dict_get entry_a (u ''title'')) (PStr [])) = Inr (u ''Rates rise'')"
  by (simp add: entry_a_def dict_get_def py_or_def strip_val_def strip_def isspace_def u_def)

lemma link_a: "strip_val (py_or (dict_get entry_a (u ''link'')) (PStr [])) = Inr (u ''http://n/1'')"
  by (simp add: entry_a_def dict_get_def py_or_def strip_val_def strip_def isspace_def u_def)

lemma summary_a:
  "clean_text (py_or (py_or (dict_get entry_a (u ''summary'')) (dict_get entry_a (u ''description'')))
     (PStr [])) = Inr (u ''Up again'')"
  by (simp add: entry_a_def dict_get_def py_or_def clean_text_def strip_def isspace_def u_def)

lemma time_a: "parse_time E1 entry_a n = (7, n)"
  by (simp add: parse_time_def entry_a_def dict_get_def parse_string_def E1_def E0_def u_def)

lemma E1_sel: "isoformat E1 t = [48 + t]" "clock E1 n = 100 + n"
  by (simp_all add: E1_def E0_def)

lemma make_item_a:
  "make_item E1 src_a entry_a n = (Inr (item_a\<lparr>fetched_at := [148 + n]\<rparr>), Suc n)"
proof -
  have src: "name src_a = PStr (u ''A'')" "url src_a = PStr (u ''http://a/rss'')"
    "category src_a = PNone"
    by (simp_all add: src_a_def)
  show ?thesis
    by (simp add: make_item_def title_a link_a summary_a time_a sha1_rates now_kst_def
        item_a_def id_rates_def E1_sel src labels_rates)
qed

lemma fetch_a: "fetch_rss E1 src_a n = (Inr [item_a\<lparr>fetched_at := [149 + n]\<rparr>], Suc (Suc n))"
proof -
  have "feedparser_parse E1 n (url src_a) = Inr [entry_a]"
    by (simp add: E1_def src_a_def)
  then show ?thesis
    by (simp add: fetch_rss_def make_item_a)
qed

lemma title_b: "strip_val (py_or (dict_get entry_b (u ''title'')) (PStr [])) = Inr (u ''Rates rise'')"
  by (simp add: entry_b_def dict_get_def py_or_def strip_val_def strip_def isspace_def u_def)

lemma link_b: "strip_val (py_or (dict_get entry_b (u ''link'')) (PStr [])) = Inr (u ''http://n/1'')"
  by (simp add: entry_b_def dict_get_def py_or_def strip_val_def strip_def isspace_def u_def)

lemma summary_b:
  "clean_text (py_or (py_or (dict_get entry_b (u ''summary'')) (dict_get entry_b (u ''description'')))
     (PStr [])) = Inr (u ''other words'')"
  by (simp add: entry_b_def dict_get_def py_or_def clean_text_def strip_def isspace_def u_def)

lemma time_b: "parse_time E1 entry_b n = (8, n)"
  by (simp add: parse_time_def entry_b_def dict_get_def parse_string_def parse_tuple_def
      E1_def E0_def u_def)

lemma make_item_b:
  "make_item E1 src_b entry_b n = (Inr (item_b\<lparr>fetched_at := [148 + n]\<rparr>), Suc n)"
proof -
  have src: "name src_b = PStr (u ''B'')" "url src_b = PStr (u ''http://b/rss'')"
    "category src_b = PStr (u ''economy'')"
    by (simp_all add: src_b_def)
  show ?thesis
    by (simp add: make_item_def title_b link_b summary_b time_b sha1_rates now_kst_def
        item_b_def id_rates_def E1_sel src labels_rates)
qed

lemma fetch_b: "fetch_rss E1 src_b n = (Inr [item_b\<lparr>fetched_at := [149 + n]\<rparr>], Suc (Suc n))"
proof -
  have "feedparser_parse E1 n (url src_b) = Inr [entry_b]"
    by (simp add: E1_def src_b_def u_def)
  then show ?thesis
    by (simp add: fetch_rss_def make_item_b)
qed

lemma fetch_down: "fetch_rss E1 src_down n = (Inl (External (u ''timed out'')), Suc n)"
proof -
  have "feedparser_parse E1 n (url src_down) = Inl (External (u ''timed out''))"
    by (simp add: E1_def src_down_def u_def)
  then show ?thesis
    by (simp add: fetch_rss_def)
qed

lemma item_a_b: "item_id item_a = item_id item_b" "published_at item_a = [55]"
  "published_at item_b = [56]" "title item_a = title item_b" "item_url item_a = item_url item_b"
  "summary item_a \<noteq> summary item_b" "item_a\<lparr>fetched_at := [149]\<rparr> = item_a"
  "item_b\<lparr>fetched_at := [151]\<rparr> = item_b"
  by (simp_all add: item_a_def item_b_def u_def)

lemma collect_a_b:
  "collect E1 20 [src_a, src_b] ([], [], 0) = ([item_a, item_b], [], Suc (Suc (Suc (Suc 0))))"
  by (simp add: fetch_a fetch_b slice_to_def item_a_b)

lemma collect_a_b_none:
  "collect E1 0 [src_a, src_b] ([], [], 0) = ([], [], Suc (Suc (Suc (Suc 0))))"
  by (simp add: fetch_a fetch_b slice_to_def)

lemma sorted_reverse_a_b: "sorted_reverse published_at [item_a, item_b] = [item_b, item_a]"
  by (simp add: sorted_reverse_def item_a_b)

lemma aggregate_a_b: "aggregate 200 [item_a, item_b] = [item_b]"
  by (simp add: aggregate_def sorted_reverse_a_b setdefault_def item_a_b slice_to_def)

lemma aggregate_a_b_cut: "aggregate 0 [item_a, item_b] = []" "aggregate (- 1) [item_a, item_b] = []"
  by (simp_all add: aggregate_def sorted_reverse_a_b setdefault_def item_a_b slice_to_def)

lemma collect_a_down_b:
  "collect E1 20 [src_a, src_down, src_b] ([], [], 0) =
     ([item_a, item_b\<lparr>fetched_at := [152]\<rparr>],
      [Warn (PStr (u ''down'')) (External (u ''timed out''))],
      Suc (Suc (Suc (Suc (Suc 0)))))"
proof -
  have "name src_down = PStr (u ''down'')" by (simp add: src_down_def)
  then show ?thesis
    by (simp add: fetch_a fetch_b fetch_down slice_to_def item_a_b)
qed

lemma aggregate_a_down_b:
  "aggregate 200 [item_a, item_b\<lparr>fetched_at := [152]\<rparr>] = [item_b\<lparr>fetched_at := [152]\<rparr>]"
  by (simp add: aggregate_def sorted_reverse_def setdefault_def item_a_b slice_to_def)

lemma make_item_a_any:
  "\<exists>x. make_item E1 src entry_a n = (Inr x, Suc n) \<and> published_at x = [55]"
  by (simp add: make_item_def title_a link_a summary_a time_a sha1_rates now_kst_def E1_sel)

lemma make_item_b_any:
  "\<exists>x. make_item E1 src entry_b n = (Inr x, Suc n) \<and> published_at x = [56]"
  by (simp add: make_item_def title_b link_b summary_b time_b sha1_rates now_kst_def E1_sel)

lemma fetch_ab:
  "\<exists>x y. fetch_rss E1 src_ab n = (Inr [x, y], Suc (Suc (Suc n))) \<and>
         published_at x = [55] \<and> published_at y = [56]"
proof -
  have feed: "feedparser_parse E1 n (url src_ab) = Inr [entry_a, entry_b]"
    by (simp add: E1_def src_ab_def u_def)
  obtain x where x: "make_item E1 src_ab entry_a (Suc n) = (Inr x, Suc (Suc n))"
    "published_at x = [55]"
    using make_item_a_any [of src_ab "Suc n"] by blast
  obtain y where y: "make_item E1 src_ab entry_b (Suc (Suc n)) = (Inr y, Suc (Suc (Suc n)))"
    "published_at y = [56]"
    using make_item_b_any [of src_ab "Suc (Suc n)"] by blast
  have "fetch_rss E1 src_ab n = (Inr [x, y], Suc (Suc (Suc n)))"
    by (simp add: fetch_rss_def feed x y)
  then show ?thesis using x(2) y(2) by blast
qed

lemma negative_per_source_limit_run:
  "length (aggregate 200 (fst (collect E1 (- 1) [src_ab] ([], [], 0)))) = 1 \<and>
   fetch_trace E1 [src_ab] 0 \<noteq> [] \<and> map fetched (fetch_trace E1 [src_ab] 0) = [2]"
proof -
  obtain x y where f: "fetch_rss E1 src_ab 0 = (Inr [x, y], Suc (Suc (Suc 0)))"
    and p: "published_at x = [55]" "published_at y = [56]"
    using fetch_ab [of 0] by blast
  have s: "sorted_reverse published_at [x, y] = [y, x]"
    by (simp add: sorted_reverse_def p)
  have c: "fst (collect E1 (- 1) [src_ab] ([], [], 0)) = [y]"
    by (simp add: f s slice_to_def)
  have a: "aggregate 200 [y] = [y]"
    by (simp add: aggregate_def setdefault_def slice_to_def)
  have t: "fetch_trace E1 [src_ab] 0 = [Inr [x, y]]"
    by (simp add: f)
  show ?thesis unfolding c a t by (simp add: fetched_def)
qed

lemma make_item_bad: "make_item E1 src entry_bad n = (Inl UnicodeEncodeError, Suc n)"
proof -
  have t: "strip_val (py_or (dict_get entry_bad (u ''title'')) (PStr [])) = Inr [55357]"
    by (simp add: entry_bad_def dict_get_def py_or_def strip_val_def strip_def isspace_def u_def)
  have l: "strip_val (py_or (dict_get entry_bad (u ''link'')) (PStr [])) = Inr (u ''http://n/2'')"
    by (simp add: entry_bad_def dict_get_def py_or_def strip_val_def strip_def isspace_def u_def)
  have s: "clean_text (py_or (py_or (dict_get entry_bad (u ''summary''))
      (dict_get entry_bad (u ''description''))) (PStr [])) = Inr []"
    by (simp add: entry_bad_def dict_get_def py_or_def clean_text_def u_def)
  have p: "parse_time E1 entry_bad n = (100 + n, Suc n)"
    by (simp add: parse_time_def entry_bad_def dict_get_def now_kst_def E1_sel u_def)
  have h: "sha1 [[55357], u ''http://n/2''] = Inl UnicodeEncodeError"
    by (simp add: sha1_def utf8_char_def)
  show ?thesis by (simp add: make_item_def t l s p h)
qed

lemma fetch_mixed: "fetch_rss E1 src_mixed n = (Inl UnicodeEncodeError, Suc (Suc (Suc n)))"
proof -
  have feed: "feedparser_parse E1 n (url src_mixed) = Inr [entry_a, entry_bad]"
    by (simp add: E1_def src_mixed_def u_def)
  obtain x where x: "make_item E1 src_mixed entry_a (Suc n) = (Inr x, Suc (Suc n))"
    using make_item_a_any [of src_mixed "Suc n"] by blast
  show ?thesis by (simp add: fetch_rss_def feed x make_item_bad)
qed

lemma make_item_ab_c: "make_item E0 src_a entry_ab_c 0 = (Inr item_ab_c, Suc (Suc 0))"
proof -
  have t: "strip_val (py_or (dict_get entry_ab_c (u ''title'')) (PStr [])) = Inr (u ''a|b'')"
    by (simp add: entry_ab_c_def dict_get_def py_or_def strip_val_def strip_def isspace_def u_def)
  have l: "strip_val (py_or (dict_get entry_ab_c (u ''link'')) (PStr [])) = Inr (u ''c'')"
    by (simp add: entry_ab_c_def dict_get_def py_or_def strip_val_def strip_def isspace_def u_def)
  have s: "clean_text (py_or (py_or (dict_get entry_ab_c (u ''summary''))
      (dict_get entry_ab_c (u ''description''))) (PStr [])) = Inr []"
    by (simp add: entry_ab_c_def dict_get_def py_or_def clean_text_def u_def)
  have p: "parse_time E0 entry_ab_c 0 = (100, Suc 0)"
    by (simp add: parse_time_def entry_ab_c_def dict_get_def now_kst_def E0_def u_def)
  have h: "sha1 [u ''a|b'', u ''c''] = Inr (hexdigest (sha1_digest [97, 124, 98, 124, 99]))"
    by (simp add: sha1_def utf8_char_def u_def)
  have g: "guess_category (u ''a|b'') [] PNone = PStr (u ''general'')"
    "make_tags (u ''a|b'') [] = [u ''short_title'']"
    by (simp_all add: guess_category_def make_tags_def any_in_def POLITICS_KW_def ECONOMY_KW_def
      SOCIETY_KW_def CULTURE_KW_def ITSCI_KW_def SPORTS_KW_def u_def)
  have e: "isoformat E0 100 = [148]" "isoformat E0 (clock E0 (Suc 0)) = [149]"
    by (simp_all add: E0_def)
  have src: "name src_a = PStr (u ''A'')" "url src_a = PStr (u ''http://a/rss'')"
    "category src_a = PNone"
    by (simp_all add: src_a_def)
  show ?thesis
    by (simp add: make_item_def t l s p h g e src now_kst_def item_ab_c_def id_abc_def)
qed

lemma make_item_a_bc:
  "make_item E0 src_b entry_a_bc (Suc (Suc 0)) = (Inr item_a_bc, Suc (Suc (Suc (Suc 0))))"
proof -
  have t: "strip_val (py_or (dict_get entry_a_bc (u ''title'')) (PStr [])) = Inr (u ''a'')"
    by (simp add: entry_a_bc_def dict_get_def py_or_def strip_val_def strip_def isspace_def u_def)
  have l: "strip_val (py_or (dict_get entry_a_bc (u ''link'')) (PStr [])) = Inr (u ''b|c'')"
    by (simp add: entry_a_bc_def dict_get_def py_or_def strip_val_def strip_def isspace_def u_def)
  have s: "clean_text (py_or (py_or (dict_get entry_a_bc (u ''summary''))
      (dict_get entry_a_bc (u ''description''))) (PStr [])) = Inr []"
    by (simp add: entry_a_bc_def dict_get_def py_or_def clean_text_def u_def)
  have p: "parse_time E0 entry_a_bc (Suc (Suc 0)) = (102, Suc (Suc (Suc 0)))"
    by (simp add: parse_time_def entry_a_bc_def dict_get_def now_kst_def E0_def u_def)
  have h: "sha1 [u ''a'', u ''b|c''] = Inr (hexdigest (sha1_digest [97, 124, 98, 124, 99]))"
    by (simp add: sha1_def utf8_char_def u_def)
  have g: "guess_category (u ''a'') [] (PStr (u ''economy'')) = PStr (u ''economy'')"
    "make_tags (u ''a'') [] = [u ''short_title'']"
    by (simp_all add: guess_category_def make_tags_def any_in_def u_def)
  have e: "isoformat E0 102 = [150]" "isoformat E0 (clock E0 (Suc (Suc (Suc 0)))) = [151]"
    by (simp_all add: E0_def)
  have src: "name src_b = PStr (u ''B'')" "url src_b = PStr (u ''http://b/rss'')"
    "category src_b = PStr (u ''economy'')"
    by (simp_all add: src_b_def)
  show ?thesis
    by (simp add: make_item_def t l s p h g e src now_kst_def item_a_bc_def id_abc_def)
qed

lemma items_abc:
  "title item_ab_c = u ''a|b''" "item_url item_ab_c = u ''c''"
  "title item_a_bc = u ''a''" "item_url item_a_bc = u ''b|c''"
  "item_id item_ab_c = item_id item_a_bc" "published_at item_ab_c = [148]"
  "published_at item_a_bc = [150]"
  by (simp_all add: item_ab_c_def item_a_bc_def)

lemma aggregate_abc: "aggregate 200 [item_ab_c, item_a_bc] = [item_a_bc]"
  by (simp add: aggregate_def sorted_reverse_def setdefault_def items_abc slice_to_def)

lemma E2_sel:
  "dtparser_parse E2 = dtparser_parse E1" "datetime_utc E2 = datetime_utc E1"
  "isoformat E2 = isoformat E1" "clock E2 = clock E1"
  "feedparser_parse E2 = feedparser_parse E1"
  by (simp_all add: E2_def)

lemma E2_feeds: "fetch_rss E2 src n = fetch_rss E1 src n"
proof -
  have ps: "parse_string E2 = parse_string E1"
    by (rule ext) (simp add: parse_string_def E2_sel split: pyval.splits)
  have pt: "parse_tuple E2 = parse_tuple E1"
    by (rule ext) (simp add: parse_tuple_def E2_sel split: pyval.splits)
  have now: "now_kst E2 k = now_kst E1 k" for k
    by (simp add: now_kst_def E2_sel)
  have time: "parse_time E2 e k = parse_time E1 e k" for e k
    unfolding parse_time_def ps pt now by (rule refl)
  have "make_item E2 src e k = make_item E1 src e k" for e k
    unfolding make_item_def time now E2_sel by (rule refl)
  then have "items_loop E2 src es k = items_loop E1 src es k" for es k
    by (induction es arbitrary: k) (simp_all split: prod.splits sum.splits)
  then show ?thesis by (simp add: fetch_rss_def E2_sel split: sum.splits)
qed

lemma collect_E2: "collect E2 psl srcs st = collect E1 psl srcs st"
proof (induction srcs arbitrary: st)
  case Nil
  show ?case by simp
next
  case (Cons src rest)
  obtain a l n where st: "st = (a, l, n)" by (cases st)
  obtain r n1 where f: "fetch_rss E1 src n = (r, n1)" by (cases "fetch_rss E1 src n")
  show ?case unfolding st by (cases r) (simp_all add: E2_feeds f Cons.IH)
qed

lemma load_sources_E2: "load_sources E2 (u ''sources.yaml'') = Inr [src_a, src_down, src_b]"
  by (simp add: load_sources_def E2_def E1_def E0_def doc_sources_def py_or_def dict_get_def
      src_a_def src_b_def src_down_def u_def)

lemma collect_E2_run:
  "collect E2 20 [src_a, src_down, src_b] ([], [], 0) =
     ([item_a, item_b\<lparr>fetched_at := [152]\<rparr>],
      [Warn (PStr (u ''down'')) (External (u ''timed out''))],
      Suc (Suc (Suc (Suc (Suc 0)))))"
  by (simp only: collect_E2 collect_a_down_b)

lemma main_E2:
  "main E2 Map.empty =
     (Saved [item_b\<lparr>fetched_at := [152]\<rparr>],
      [Warn (PStr (u ''down'')) (External (u ''timed out''))])"
proof -
  have flags: "ENABLE_FULLTEXT E2 = False" "write_files E2 = (\<lambda>n ids. None)"
    by (simp_all add: E2_def E1_def E0_def)
  show ?thesis
    unfolding main_def Let_def
    by (simp add: getenv_int_def load_sources_E2 collect_E2_run aggregate_a_down_b
        flags save_def to_frame_def del: collect.simps)
qed

lemma load_sources_missing: "load_sources E0 (u ''sources.yaml'') = Inl FileNotFoundError"
  by (simp add: load_sources_def E0_def)

lemma main_missing: "main E0 Map.empty = (Uncaught FileNotFoundError, [])"
  by (simp add: main_def getenv_int_def load_sources_missing)

lemma load_sources_blank: "load_sources E_blank (u ''sources.yaml'') = Inr []"
  by (simp add: load_sources_def E_blank_def E0_def py_or_def)

lemma main_blank: "main E_blank Map.empty = (SysExit 1, [NoSources])"
  by (simp add: main_def getenv_int_def load_sources_blank)

lemma aggregate_four:
  "aggregate 2
     [item_a\<lparr>item_id := u ''1'', published_at := [50]\<rparr>,
      item_a\<lparr>item_id := u ''2'', published_at := [70]\<rparr>,
      item_a\<lparr>item_id := u ''1'', published_at := [60]\<rparr>,
      item_a\<lparr>item_id := u ''3'', published_at := [40]\<rparr>] =
     [item_a\<lparr>item_id := u ''2'', published_at := [70]\<rparr>,
      item_a\<lparr>item_id := u ''1'', published_at := [60]\<rparr>]"
  by (simp add: aggregate_def sorted_reverse_def setdefault_def slice_to_def u_def)

lemma trace_a_down_b:
  "map fetched (fetch_trace E1 [src_a, src_down, src_b] 0) = [1, 0, 1]"
  by (simp add: fetch_a fetch_down fetch_b fetched_def)

lemma trace_a_b: "map fetched (fetch_trace E1 [src_a, src_b] 0) = [1, 1]"
  by (simp add: fetch_a fetch_b fetched_def)

lemma make_item_mixed:
  "make_item E1 src_mixed entry_a (Suc 0) =
     (Inr (item_a\<lparr>source_name := PStr (u ''mixed''),
                  source_url := PStr (u ''http://mixed/rss'')\<rparr>), Suc (Suc 0))"
proof -
  have src: "name src_mixed = PStr (u ''mixed'')" "url src_mixed = PStr (u ''http://mixed/rss'')"
    "category src_mixed = PNone"
    by (simp_all add: src_mixed_def)
  show ?thesis
    by (simp add: make_item_def title_a link_a summary_a time_a sha1_rates now_kst_def
        item_a_def id_rates_def E1_sel src labels_rates)
qed

lemma feed_mixed: "feedparser_parse E1 0 (url src_mixed) = Inr ([entry_a] @ entry_bad # [])"
  by (simp add: E1_def src_mixed_def u_def)

lemma collect_a: "collect E1 20 [src_a] ([], [], 0) = ([item_a], [], Suc (Suc 0))"
  by (simp add: fetch_a slice_to_def item_a_b)

lemma collect_b_after:
  "collect E1 20 [src_b] (acc, lg, Suc (Suc (Suc 0))) =
     (acc @ [item_b\<lparr>fetched_at := [152]\<rparr>], lg, Suc (Suc (Suc (Suc (Suc 0)))))"
  by (simp add: fetch_b slice_to_def)

section \<open>The aggregation pipeline: order, duplicates and counts\<close>




text \<open>
  C2. The final output sequence is always sorted by \<open>published_at\<close> in descending order
  and no two of its items share an id: the list \<^verbatim>\<open>items\<close> of line 210, for every
  combined list and every limit, and the rows of the data frame a run of \<^verbatim>\<open>main\<close> saves
  (after the optional enrichment and \<^verbatim>\<open>to_frame\<close>).
\<close>

theorem output_sorted_and_unique:
  "sorted_wrt (\<lambda>x y. published_at y \<le> published_at x) (aggregate lim all_items) \<and>
   distinct (map item_id (aggregate lim all_items)) \<and>
   (main env environ = (Saved rows, lg) \<longrightarrow>
      sorted_wrt (\<lambda>x y. published_at y \<le> published_at x) rows \<and>
      distinct (map item_id rows))"
proof -
  have rows: "sorted_wrt (\<lambda>x y. published_at y \<le> published_at x) rows \<and>
      distinct (map item_id rows)" if run: "main env environ = (Saved rows, lg)"
    using run
  proof (rule main_saved_cases)
    fix l xs n
    assume "save env (aggregate l xs) n = Saved rows"
    then have r: "rows = to_frame (aggregate l xs)" by (rule save_rows)
    have "sorted_wrt (\<lambda>x y. published_at y \<le> published_at x) (to_frame (aggregate l xs)) \<and>
        distinct (map item_id (to_frame (aggregate l xs)))"
      by (rule rows_like_items) (rule refl refl aggregate_distinct aggregate_descending)+
    then show ?thesis by (simp only: r)
  next
    fix l xs n limit n2
    let ?ys = "fst (enrich_loop env limit 0 (aggregate l xs) n)"
    assume "save env ?ys n2 = Saved rows"
    then have r: "rows = to_frame ?ys" by (rule save_rows)
    have "sorted_wrt (\<lambda>x y. published_at y \<le> published_at x) (to_frame ?ys) \<and>
        distinct (map item_id (to_frame ?ys))"
      by (rule rows_like_items)
        (rule enrich_loop_ids enrich_loop_published aggregate_distinct aggregate_descending)+
    then show ?thesis by (simp only: r)
  qed
  show ?thesis
    using aggregate_descending [of lim all_items] aggregate_distinct [of lim all_items] rows
    by blast
qed

text \<open>
  The run of \<^verbatim>\<open>main\<close> in \<open>E2\<close> (sources A, down, B) saves one row, the later of the two
  items with the same id. A combined list of four items with the ids 1, 2, 1, 3 and the
  times 50, 70, 60, 40, cut at 2: the output is the item of id 2 (time 70) and then the
  later item of id 1 (time 60).
\<close>

theorem output_sorted_and_unique_witness:
  "main E2 Map.empty =
     (Saved [item_b\<lparr>fetched_at := [152]\<rparr>],
      [Warn (PStr (u ''down'')) (External (u ''timed out''))]) \<and>
   sorted_wrt (\<lambda>x y. published_at y \<le> published_at x) [item_b\<lparr>fetched_at := [152]\<rparr>] \<and>
   distinct (map item_id [item_b\<lparr>fetched_at := [152]\<rparr>]) \<and>
   aggregate 2
     [item_a\<lparr>item_id := u ''1'', published_at := [50]\<rparr>,
      item_a\<lparr>item_id := u ''2'', published_at := [70]\<rparr>,
      item_a\<lparr>item_id := u ''1'', published_at := [60]\<rparr>,
      item_a\<lparr>item_id := u ''3'', published_at := [40]\<rparr>] =
     [item_a\<lparr>item_id := u ''2'', published_at := [70]\<rparr>,
      item_a\<lparr>item_id := u ''1'', published_at := [60]\<rparr>] \<and>
   sorted_wrt (\<lambda>x y. published_at y \<le> published_at x)
     [item_a\<lparr>item_id := u ''2'', published_at := [70]\<rparr>,
      item_a\<lparr>item_id := u ''1'', published_at := [60]\<rparr>] \<and>
   distinct (map item_id
     [item_a\<lparr>item_id := u ''2'', published_at := [70]\<rparr>,
      item_a\<lparr>item_id := u ''1'', published_at := [60]\<rparr>])"
  using output_sorted_and_unique [of 2
      "[item_a\<lparr>item_id := u ''1'', published_at := [50]\<rparr>,
        item_a\<lparr>item_id := u ''2'', published_at := [70]\<rparr>,
        item_a\<lparr>item_id := u ''1'', published_at := [60]\<rparr>,
        item_a\<lparr>item_id := u ''3'', published_at := [40]\<rparr>]" E2 Map.empty
      "[item_b\<lparr>fetched_at := [152]\<rparr>]" "[Warn (PStr (u ''down'')) (External (u ''timed out''))]"]
  by (simp add: main_E2 aggregate_four)

text \<open>
  C3 (as amended). For every list of sources, every world and every configuration whose
  \<open>per_source_limit\<close> and \<open>total_limit\<close> are not negative, the number of items in the
  final output is at most the minimum of \<open>total_limit\<close> and the sum, over the sources, of
  the minimum of \<open>per_source_limit\<close> and the number of items fetched from the source (none
  when the fetch raised).
\<close>

theorem output_count_bound:
  assumes "0 \<le> psl" and "0 \<le> lim"
  shows "int (length (aggregate lim (fst (collect env psl srcs ([], [], n)))))
         \<le> min lim (\<Sum>r\<leftarrow>fetch_trace env srcs n. min psl (int (fetched r)))"
proof -
  let ?all = "fst (collect env psl srcs ([], [], n))"
  have all: "?all = concat (map (kept psl) (fetch_trace env srcs n))"
    by (simp add: collect_trace)
  have "int (length (aggregate lim ?all)) \<le> int (length ?all)"
    using length_aggregate_le [of lim ?all] by simp
  also have "\<dots> = (\<Sum>r\<leftarrow>fetch_trace env srcs n. min psl (int (fetched r)))"
    unfolding all using assms(1) by (rule length_concat_kept)
  finally have a: "int (length (aggregate lim ?all))
      \<le> (\<Sum>r\<leftarrow>fetch_trace env srcs n. min psl (int (fetched r)))" .
  have b: "int (length (aggregate lim ?all)) \<le> lim"
    using assms(2) by (rule length_aggregate_limit)
  show ?thesis using a b by simp
qed

text \<open>
  Sources A, down, B with the default limits: one item in the output, two items kept.
\<close>

theorem output_count_bound_witness:
  "int (length (aggregate 200 (fst (collect E1 20 [src_a, src_down, src_b] ([], [], 0))))) = 1 \<and>
   min 200 (\<Sum>r\<leftarrow>fetch_trace E1 [src_a, src_down, src_b] 0. min 20 (int (fetched r))) = 2"
  using output_count_bound [of 20 200 E1 "[src_a, src_down, src_b]" 0]
  by (simp add: sum_list_fetched trace_a_down_b collect_a_down_b aggregate_a_down_b
      del: collect.simps fetch_trace.simps)

text \<open>
  As C3 is worded, for every configuration, it fails: the limits are slice bounds, and a
  negative bound counts from the end. With \<^verbatim>\<open>PER_SOURCE_LIMIT=-1\<close> a source that
  returns two items keeps one, which is output, and the bound is \<open>- 1\<close>; with
  \<^verbatim>\<open>TOTAL_LIMIT=-1\<close> the bound is \<open>- 1\<close> too, below the size of every output.
\<close>

theorem output_count_counterexample:
  "map fetched (fetch_trace E1 [src_ab] 0) = [2] \<and>
   length (aggregate 200 (fst (collect E1 (- 1) [src_ab] ([], [], 0)))) = 1 \<and>
   \<not> int (length (aggregate 200 (fst (collect E1 (- 1) [src_ab] ([], [], 0)))))
       \<le> min 200 (\<Sum>r\<leftarrow>fetch_trace E1 [src_ab] 0. min (- 1) (int (fetched r))) \<and>
   map fetched (fetch_trace E1 [src_a, src_b] 0) = [1, 1] \<and>
   length (aggregate (- 1) (fst (collect E1 20 [src_a, src_b] ([], [], 0)))) = 0 \<and>
   \<not> int (length (aggregate (- 1) (fst (collect E1 20 [src_a, src_b] ([], [], 0)))))
       \<le> min (- 1) (\<Sum>r\<leftarrow>fetch_trace E1 [src_a, src_b] 0. min 20 (int (fetched r)))"
  using negative_per_source_limit_run
  by (simp add: sum_list_fetched trace_a_b collect_a_b aggregate_a_b_cut sum_list_triv
      length_fetch_trace del: collect.simps fetch_trace.simps)

text \<open>
  C8. When fetching a source raises an error, wherever the source stands in the list
  (\<open>before\<close> are the sources ahead of it, \<open>rest\<close> the remaining ones): the loop goes on
  with the remaining sources, from the items collected so far and with one more line on
  standard error, the warning that carries the name of the source and the error. So the
  items of the whole run are those of the sources before followed by those of the
  remaining sources, nothing of the failed source among them. No partial result is kept:
  when the feed was read and an entry after \<open>es1\<close> raises, the items made of \<open>es1\<close> are
  lost with it, and \<^verbatim>\<open>fetch_rss\<close> as a whole raises that error.
\<close>

theorem failed_source_skipped:
  "(collect env psl before st = (acc, lg, n) \<and> fetch_rss env src n = (Inl e, n1) \<longrightarrow>
      collect env psl (before @ src # rest) st =
        collect env psl rest (acc, lg @ [Warn (name src) e], n1) \<and>
      fst (collect env psl (before @ src # rest) st) =
        acc @ fst (collect env psl rest ([], [], n1)) \<and>
      fst (snd (collect env psl (before @ src # rest) st)) =
        lg @ Warn (name src) e # fst (snd (collect env psl rest ([], [], n1)))) \<and>
   (feedparser_parse env n (url src) = Inr (es1 @ bad # es2) \<and>
    items_loop env src es1 (Suc n) = (Inr items1, k) \<and>
    make_item env src bad k = (Inl e, n1) \<longrightarrow>
      fetch_rss env src n = (Inl e, n1))"
proof -
  have run: "collect env psl (before @ src # rest) st =
        collect env psl rest (acc, lg @ [Warn (name src) e], n1)"
    if b: "collect env psl before st = (acc, lg, n)" and f: "fetch_rss env src n = (Inl e, n1)"
    by (simp add: collect_append b f)
  have split: "collect env psl rest (acc, lg @ [Warn (name src) e], n1) =
     (acc @ fst (collect env psl rest ([], [], n1)),
      (lg @ [Warn (name src) e]) @ fst (snd (collect env psl rest ([], [], n1))),
      snd (snd (collect env psl rest ([], [], n1))))"
    by (rule collect_from_empty)
  have partial: "fetch_rss env src n = (Inl e, n1)"
    if feed: "feedparser_parse env n (url src) = Inr (es1 @ bad # es2)"
      and l: "items_loop env src es1 (Suc n) = (Inr items1, k)"
      and m: "make_item env src bad k = (Inl e, n1)"
    using items_loop_failure [OF l m, of es2] by (simp add: fetch_rss_def feed)
  show ?thesis
    using run partial by (simp add: split)
qed

text \<open>
  Sources A, down, B: the feed of \<open>down\<close> cannot be read, the warning names it, and the
  item of B is collected after it. The feed of \<open>src_mixed\<close> has a good entry and then one
  whose title cannot be encoded: the fetch raises and the item of the good entry is gone.
  The run of \<^verbatim>\<open>main\<close> over A, down, B ends with the dataset saved and the warning
  printed.
\<close>

theorem failed_source_skipped_witness:
  "collect E1 20 [src_a] ([], [], 0) = ([item_a], [], Suc (Suc 0)) \<and>
   fetch_rss E1 src_down (Suc (Suc 0)) = (Inl (External (u ''timed out'')), Suc (Suc (Suc 0))) \<and>
   collect E1 20 ([src_a] @ src_down # [src_b]) ([], [], 0) =
     ([item_a, item_b\<lparr>fetched_at := [152]\<rparr>],
      [Warn (PStr (u ''down'')) (External (u ''timed out''))],
      Suc (Suc (Suc (Suc (Suc 0))))) \<and>
   items_loop E1 src_mixed [entry_a] (Suc 0) =
     (Inr [item_a\<lparr>source_name := PStr (u ''mixed''),
                   source_url := PStr (u ''http://mixed/rss'')\<rparr>], Suc (Suc 0)) \<and>
   make_item E1 src_mixed entry_bad (Suc (Suc 0)) = (Inl UnicodeEncodeError, Suc (Suc (Suc 0))) \<and>
   fetch_rss E1 src_mixed 0 = (Inl UnicodeEncodeError, Suc (Suc (Suc 0))) \<and>
   main E2 Map.empty =
     (Saved [item_b\<lparr>fetched_at := [152]\<rparr>],
      [Warn (PStr (u ''down'')) (External (u ''timed out''))])"
proof -
  have down: "name src_down = PStr (u ''down'')" by (simp add: src_down_def)
  show ?thesis
    using failed_source_skipped [where env = E1 and psl = 20 and before = "[src_a]"
        and st = "([], [], 0)" and acc = "[item_a]" and lg = "[]" and n = "Suc (Suc 0)"
        and src = src_down and e = "External (u ''timed out'')" and ?n1.0 = "Suc (Suc (Suc 0))"
        and rest = "[src_b]" and ?es1.0 = "[]" and bad = "[]" and ?es2.0 = "[]"
        and ?items1.0 = "[]" and k = 0]
      failed_source_skipped [where env = E1 and psl = 20 and before = "[]"
        and st = "([], [], 0)" and acc = "[]" and lg = "[]" and n = 0
        and src = src_mixed and e = UnicodeEncodeError and ?n1.0 = "Suc (Suc (Suc 0))"
        and rest = "[]" and ?es1.0 = "[entry_a]" and bad = entry_bad and ?es2.0 = "[]"
        and ?items1.0 = "[item_a\<lparr>source_name := PStr (u ''mixed''),
                     source_url := PStr (u ''http://mixed/rss'')\<rparr>]" and k = "Suc (Suc 0)"]
    by (simp add: collect_a fetch_down feed_mixed make_item_mixed make_item_bad
        fetch_mixed down collect_b_after main_E2 del: collect.simps)
qed

section \<open>The id of an item\<close>

text \<open>
  C9. The id of every item is a function of its title and url alone: the first 16
  characters of \<^verbatim>\<open>sha1(title, url)\<close>, where title and url are the trimmed fields of the
  entry. Two items with the same title and url, whatever the world, the source, the rest
  of the entry and the time they were made in, have the same id, and the id is 16
  hexadecimal digits.
\<close>

theorem item_id_of_title_and_url:
  assumes "fst (make_item env1 src1 e1 n1) = Inr it1"
    and "fst (make_item env2 src2 e2 n2) = Inr it2"
    and "title it1 = title it2" and "item_url it1 = item_url it2"
  shows "item_id it1 = item_id it2 \<and>
         length (item_id it1) = 16 \<and> set (item_id it1) \<subseteq> set (u ''0123456789abcdef'') \<and>
         (\<exists>h. sha1 [title it1, item_url it1] = Inr h \<and> item_id it1 = take 16 h) \<and>
         strip_val (py_or (dict_get e1 (u ''title'')) (PStr [])) = Inr (title it1) \<and>
         strip_val (py_or (dict_get e1 (u ''link'')) (PStr [])) = Inr (item_url it1)"
proof -
  have a: "map_sum (\<lambda>err. err) (take 16) (sha1 [title it1, item_url it1]) = Inr (item_id it1)"
    using assms(1) by (rule make_item_id)
  have b: "map_sum (\<lambda>err. err) (take 16) (sha1 [title it2, item_url it2]) = Inr (item_id it2)"
    using assms(2) by (rule make_item_id)
  have same: "item_id it1 = item_id it2"
    using a b assms(3,4) by simp
  obtain h where h: "sha1 [title it1, item_url it1] = Inr h" "item_id it1 = take 16 h"
    using item_id_take [OF a] by blast
  have hex: "length h = 40 \<and> set h \<subseteq> set (u ''0123456789abcdef'')"
    using h(1) by (rule sha1_hex)
  have len: "length (item_id it1) = 16" using hex h(2) by simp
  have "set (take 16 h) \<subseteq> set h" by (rule set_take_subset)
  moreover have "set h \<subseteq> set (u ''0123456789abcdef'')" using hex by (rule conjunct2)
  ultimately have "set (take 16 h) \<subseteq> set (u ''0123456789abcdef'')" by (rule subset_trans)
  then have digits: "set (item_id it1) \<subseteq> set (u ''0123456789abcdef'')"
    by (simp only: h(2))
  show ?thesis
    using same len digits h make_item_fields [OF assms(1)] by blast
qed

text \<open>
  \<open>item_a\<close> and \<open>item_b\<close> come from different sources and entries, at different times,
  and differ in summary, source and \<open>published_at\<close>; title and url agree, and so do the
  ids.
\<close>

theorem item_id_of_title_and_url_witness:
  "fst (make_item E1 src_a entry_a (Suc 0)) = Inr item_a \<and>
   fst (make_item E1 src_b entry_b (Suc (Suc (Suc 0)))) = Inr item_b \<and>
   title item_a = title item_b \<and> item_url item_a = item_url item_b \<and>
   summary item_a \<noteq> summary item_b \<and> source_name item_a \<noteq> source_name item_b \<and>
   published_at item_a \<noteq> published_at item_b \<and>
   item_id item_a = item_id item_b \<and> length (item_id item_a) = 16"
  using item_id_of_title_and_url [where ?env1.0 = E1 and ?src1.0 = src_a and ?e1.0 = entry_a
      and ?n1.0 = "Suc 0" and ?it1.0 = item_a and ?env2.0 = E1 and ?src2.0 = src_b
      and ?e2.0 = entry_b and ?n2.0 = "Suc (Suc (Suc 0))" and ?it2.0 = item_b]
  by (simp add: make_item_a make_item_b item_a_b) (simp add: item_a_def item_b_def u_def)

text \<open>
  C10. The id depends only on the string title, \<^verbatim>\<open>|\<close>, url: two items for which these
  strings are equal have the same id, also when the pairs of title and url differ. The
  deduplication then merges them: the final output never holds more than one item of
  that id, and holds exactly one when the combined list contains such an item and is not
  longer than \<open>total_limit\<close>.
\<close>

theorem id_of_joined_string:
  assumes "fst (make_item env1 src1 e1 n1) = Inr it1"
    and "fst (make_item env2 src2 e2 n2) = Inr it2"
    and "title it1 @ [124] @ item_url it1 = title it2 @ [124] @ item_url it2"
  shows "item_id it1 = item_id it2 \<and>
         length (filter (\<lambda>x. item_id x = item_id it1) (aggregate lim all_items)) \<le> 1 \<and>
         (it1 \<in> set all_items \<and> int (length all_items) \<le> lim \<longrightarrow>
            (\<exists>x. filter (\<lambda>y. item_id y = item_id it1) (aggregate lim all_items) = [x]))"
proof -
  let ?k = "item_id it1"
  let ?S = "sorted_reverse published_at all_items"
  let ?D = "drop_duplicates [] ?S"
  have a: "map_sum (\<lambda>err. err) (take 16) (sha1 [title it1, item_url it1]) = Inr (item_id it1)"
    using assms(1) by (rule make_item_id)
  have b: "map_sum (\<lambda>err. err) (take 16) (sha1 [title it2, item_url it2]) = Inr (item_id it2)"
    using assms(2) by (rule make_item_id)
  have "sha1 [title it1, item_url it1] = sha1 [title it2, item_url it2]"
    using assms(3) by (rule sha1_joined)
  then have same: "item_id it1 = item_id it2"
    using a b by simp
  have "distinct (map item_id (aggregate lim all_items))" by (rule aggregate_distinct)
  then have "distinct (filter (\<lambda>i. i = ?k) (map item_id (aggregate lim all_items)))"
    by (rule distinct_filter)
  moreover have "set (filter (\<lambda>i. i = ?k) (map item_id (aggregate lim all_items))) \<subseteq> {?k}"
    by auto
  ultimately have "length (filter (\<lambda>i. i = ?k) (map item_id (aggregate lim all_items))) \<le> 1"
    by (metis distinct_card card_mono finite.emptyI finite.insertI card.empty card_insert_disjoint
        empty_iff One_nat_def)
  then have most: "length (filter (\<lambda>x. item_id x = ?k) (aggregate lim all_items)) \<le> 1"
    by (simp add: filter_map comp_def)
  have one: "\<exists>x. filter (\<lambda>y. item_id y = ?k) (aggregate lim all_items) = [x]"
    if mem: "it1 \<in> set all_items" and fits: "int (length all_items) \<le> lim"
  proof -
    have "length ?D \<le> length ?S" by (rule length_drop_duplicates_le)
    then have "int (length ?D) \<le> lim" using fits by simp
    then have whole: "aggregate lim all_items = ?D"
      unfolding aggregate_eq by (rule slice_to_all)
    have "it1 \<in> set (filter (\<lambda>y. item_id y = ?k) ?S)" using mem by simp
    then obtain x rest where "filter (\<lambda>y. item_id y = ?k) ?S = x # rest"
      by (cases "filter (\<lambda>y. item_id y = ?k) ?S") auto
    then have "filter (\<lambda>y. item_id y = ?k) ?D = [x]"
      by (simp add: filter_drop_duplicates)
    then show ?thesis unfolding whole by blast
  qed
  show ?thesis using same most one by blast
qed

text \<open>
  The pairs \<^verbatim>\<open>("a|b", "c")\<close> and \<^verbatim>\<open>("a", "b|c")\<close>: the two items have the same id, and
  of the two only the later one is output.
\<close>

theorem id_of_joined_string_witness:
  "fst (make_item E0 src_a entry_ab_c 0) = Inr item_ab_c \<and>
   fst (make_item E0 src_b entry_a_bc (Suc (Suc 0))) = Inr item_a_bc \<and>
   title item_ab_c = u ''a|b'' \<and> item_url item_ab_c = u ''c'' \<and>
   title item_a_bc = u ''a'' \<and> item_url item_a_bc = u ''b|c'' \<and>
   item_id item_ab_c = item_id item_a_bc \<and>
   aggregate 200 [item_ab_c, item_a_bc] = [item_a_bc]"
  using id_of_joined_string [where ?env1.0 = E0 and ?src1.0 = src_a and ?e1.0 = entry_ab_c
      and ?n1.0 = 0 and ?it1.0 = item_ab_c and ?env2.0 = E0 and ?src2.0 = src_b
      and ?e2.0 = entry_a_bc and ?n2.0 = "Suc (Suc 0)" and ?it2.0 = item_a_bc
      and lim = 200 and all_items = "[item_ab_c, item_a_bc]"]
  by (simp add: make_item_ab_c make_item_a_bc items_abc aggregate_abc)

section \<open>A configuration without sources\<close>

text \<open>
  C4 (as amended). When the sources file exists and its document is empty (it loads as
  \<^verbatim>\<open>None\<close>, or as another falsy value such as an empty mapping), the loader returns the
  empty list. The orchestrator, which reads \<^verbatim>\<open>PER_SOURCE_LIMIT\<close> and \<^verbatim>\<open>TOTAL_LIMIT\<close>
  before it calls the loader and ends with \<^verbatim>\<open>ValueError\<close> there when one of them is no
  integer, then prints the diagnostic on standard error and exits with status 1.
\<close>

theorem empty_document_no_sources:
  assumes "open_read env path = Inr f" and "safe_load env f = Inr doc" and "\<not> truthy doc"
  shows "load_sources env path = Inr [] \<and>
         ((case environ (u ''SOURCES_FILE'') of None \<Rightarrow> u ''sources.yaml'' | Some p \<Rightarrow> p) = path
          \<longrightarrow> main env environ =
            (case getenv_int env environ (u ''PER_SOURCE_LIMIT'') 20 of
               Inl e \<Rightarrow> (Uncaught e, [])
             | Inr per_source_limit \<Rightarrow>
                 (case getenv_int env environ (u ''TOTAL_LIMIT'') 200 of
                    Inl e \<Rightarrow> (Uncaught e, [])
                  | Inr total_limit \<Rightarrow> (SysExit 1, [NoSources]))))"
proof -
  have l: "load_sources env path = Inr []"
    using assms by (simp add: load_sources_def py_or_def)
  show ?thesis
    by (simp add: l main_def Let_def split: sum.splits)
qed

text \<open>An empty file \<^verbatim>\<open>sources.yaml\<close>, no setting in the environment.\<close>

theorem empty_document_witness:
  "open_read E_blank (u ''sources.yaml'') = Inr [] \<and> safe_load E_blank [] = Inr PNone \<and>
   load_sources E_blank (u ''sources.yaml'') = Inr [] \<and>
   main E_blank Map.empty = (SysExit 1, [NoSources])"
  using empty_document_no_sources [of E_blank "u ''sources.yaml''" "[]" PNone Map.empty]
  by (simp add: E_blank_def E0_def getenv_int_def)

text \<open>
  A missing file is not tolerated: \<^verbatim>\<open>open\<close> raises \<^verbatim>\<open>FileNotFoundError\<close>, so the loader
  returns no list, and the orchestrator ends with that exception, which nothing catches,
  without reaching the diagnostic and \<^verbatim>\<open>sys.exit(1)\<close>.
\<close>

theorem missing_document_counterexample:
  "open_read E0 (u ''sources.yaml'') = Inl FileNotFoundError \<and>
   load_sources E0 (u ''sources.yaml'') = Inl FileNotFoundError \<and>
   load_sources E0 (u ''sources.yaml'') \<noteq> Inr [] \<and>
   main E0 Map.empty = (Uncaught FileNotFoundError, [])"
  by (simp add: load_sources_missing main_missing) (simp add: E0_def)

end
